theory Spec2Isabelle
  imports Complex_Main "HOL-Library.Word"
begin

section \<open>The streaming chat client of \<^verbatim>\<open>frontend/app.js\<close>\<close>

text \<open>
  The development embeds the streaming client of \<^verbatim>\<open>frontend/app.js\<close>: the module-level
  variables become one record, every function takes the state and returns the new one,
  an exception is a returned value, and the browser (HTTP responses, \<^verbatim>\<open>JSON.parse\<close>,
  \<^verbatim>\<open>localStorage\<close>) is an explicit environment. Everything a function does to the world
  outside the variables (a request, a call of a render function, a message bubble) is
  appended to a log kept in the state, so that "no request is issued" is a statement
  about the log.
\<close>

subsection \<open>JavaScript strings\<close>

text \<open>
  A JavaScript string is a sequence of UTF-16 code units; a byte of a response body is
  an 8-bit word. \<open>lit\<close> turns an ASCII literal of the source into its code units.
\<close>

type_synonym jstr = "nat list"
type_synonym byte = "8 word"

definition lit :: "string \<Rightarrow> jstr" where
  "lit s = map of_char s"

text \<open>\<^verbatim>\<open>s.startsWith(p)\<close>.\<close>

fun startsWith :: "jstr \<Rightarrow> jstr \<Rightarrow> bool" where
  "startsWith s [] = True"
| "startsWith [] (p # ps) = False"
| "startsWith (c # cs) (p # ps) = (c = p \<and> startsWith cs ps)"

text \<open>\<^verbatim>\<open>s.includes(p)\<close>: \<open>p\<close> occurs somewhere in \<open>s\<close>.\<close>

fun includes_str :: "jstr \<Rightarrow> jstr \<Rightarrow> bool" where
  "includes_str [] p = (p = [])"
| "includes_str (c # cs) p = (startsWith (c # cs) p \<or> includes_str cs p)"

text \<open>
  The white space and line terminators that \<^verbatim>\<open>String.prototype.trim\<close> removes: TAB, LF,
  VT, FF, CR, SP, NBSP, the Unicode space separators, LS, PS and the byte order mark.
\<close>

definition is_ws :: "nat \<Rightarrow> bool" where
  "is_ws c \<longleftrightarrow> (9 \<le> c \<and> c \<le> 13) \<or> c = 32 \<or> c = 160 \<or> c = 5760
     \<or> (8192 \<le> c \<and> c \<le> 8202) \<or> c = 8232 \<or> c = 8233 \<or> c = 8239 \<or> c = 8287
     \<or> c = 12288 \<or> c = 65279"

definition trim :: "jstr \<Rightarrow> jstr" where
  "trim s = rev (dropWhile is_ws (rev (dropWhile is_ws s)))"

text \<open>
  \<^verbatim>\<open>s.split('\n')\<close>: the pieces between line feeds (code unit 10); there is always at
  least one piece.
\<close>

fun split_nl :: "jstr \<Rightarrow> jstr list" where
  "split_nl [] = [[]]"
| "split_nl (c # cs) =
     (if c = 10 then [] # split_nl cs
      else (case split_nl cs of [] \<Rightarrow> [[c]] | l # ls \<Rightarrow> (c # l) # ls))"

text \<open>
  \<^verbatim>\<open>buffer.indexOf('\n\n')\<close>: the position of the first blank-line separator; the
  source's \<open>-1\<close> is \<open>None\<close>.
\<close>

fun indexOf_nn :: "jstr \<Rightarrow> nat option" where
  "indexOf_nn (a # b # cs) =
     (if a = 10 \<and> b = 10 then Some 0 else map_option Suc (indexOf_nn (b # cs)))"
| "indexOf_nn [a] = None"
| "indexOf_nn [] = None"

text \<open>
  \<^verbatim>\<open>s.toLowerCase()\<close> on a header value. \<^verbatim>\<open>Headers.get\<close> returns a byte string (every
  code unit below 256), on which lower-casing moves \<open>A\<close>..\<open>Z\<close> and the Latin-1 capitals.
\<close>

definition lower_cu :: "nat \<Rightarrow> nat" where
  "lower_cu c = (if (65 \<le> c \<and> c \<le> 90) \<or> (192 \<le> c \<and> c \<le> 222 \<and> c \<noteq> 215) then c + 32 else c)"

definition toLowerCase :: "jstr \<Rightarrow> jstr" where
  "toLowerCase s = map lower_cu s"

text \<open>
  The decimal digits of a natural number, and \<^verbatim>\<open>String(n)\<close> for an integer of magnitude
  below \<open>10^21\<close> (from there on the source prints an exponent).
\<close>

fun digits :: "nat \<Rightarrow> jstr" where
  "digits n = (if n < 10 then [48 + n] else digits (n div 10) @ [48 + n mod 10])"

declare digits.simps [simp del]

definition dec_str :: "int \<Rightarrow> jstr" where
  "dec_str i = (if i < 0 then 45 # digits (nat (- i)) else digits (nat i))"

subsection \<open>JSON values\<close>

text \<open>
  The values \<^verbatim>\<open>JSON.parse\<close> and \<^verbatim>\<open>res.json()\<close> produce. Numbers are integers here: the
  page numbers, sizes and totals of the protocol are. The model is exact on the safe
  integers (magnitude below \<open>2^53\<close>), where the double arithmetic of the source is;
  fractions and larger numbers are outside it. An object is the list of its own
  properties, one entry per key.
\<close>

datatype json =
    JNull
  | JBool bool
  | JNum int
  | JStr jstr
  | JArr "json list"
  | JObj "(jstr \<times> json) list"

text \<open>
  \<^verbatim>\<open>data?.key\<close> for the keys the source reads (none of them is a built-in property of a
  string, a number or an array): \<open>None\<close> is \<^verbatim>\<open>undefined\<close>.
\<close>

fun get_prop :: "json \<Rightarrow> jstr \<Rightarrow> json option" where
  "get_prop (JObj kvs) k = map_of kvs k"
| "get_prop _ k = None"

text \<open>The truth value of a value in a condition.\<close>

fun truthy :: "json \<Rightarrow> bool" where
  "truthy JNull = False"
| "truthy (JBool b) = b"
| "truthy (JNum n) = (n \<noteq> 0)"
| "truthy (JStr s) = (s \<noteq> [])"
| "truthy (JArr xs) = True"
| "truthy (JObj kvs) = True"

fun truthy_opt :: "json option \<Rightarrow> bool" where
  "truthy_opt None = False"
| "truthy_opt (Some v) = truthy v"

text \<open>
  \<^verbatim>\<open>String(v)\<close>, also the conversion behind a template literal, \<^verbatim>\<open>textContent = v\<close>,
  \<^verbatim>\<open>new Error(v)\<close> and \<^verbatim>\<open>new URLSearchParams\<close>. \<open>None\<close> is the \<^verbatim>\<open>TypeError\<close> of a
  value that cannot be converted: an object with an own \<^verbatim>\<open>toString\<close> property (which,
  coming from JSON, is not a function), or an array that holds one. An array joins its
  elements with commas, \<^verbatim>\<open>null\<close> elements empty; any other object is
  \<^verbatim>\<open>[object Object]\<close>.
\<close>

fun join_comma :: "jstr list \<Rightarrow> jstr" where
  "join_comma [] = []"
| "join_comma [s] = s"
| "join_comma (s # t # ts) = s @ 44 # join_comma (t # ts)"

fun to_String :: "json \<Rightarrow> jstr option" where
  "to_String JNull = Some (lit ''null'')"
| "to_String (JBool b) = Some (if b then lit ''true'' else lit ''false'')"
| "to_String (JNum n) = Some (dec_str n)"
| "to_String (JStr s) = Some s"
| "to_String (JArr xs) =
     map_option join_comma (those (map (\<lambda>x. if x = JNull then Some [] else to_String x) xs))"
| "to_String (JObj kvs) =
     (if map_of kvs (lit ''toString'') = None then Some (lit ''[object Object]'') else None)"

subsection \<open>The module state and the environment\<close>

datatype request =
    UsageReq jstr int int
  | HistoryReq int int
  | StreamReq json

datatype error =
    Error jstr
  | TypeError
  | NetworkFailure
  | BodySyntaxError
  | ReadFailure

datatype effect =
    Fetch request
  | RenderStats
  | RenderHistory
  | AppendMessage jstr jstr
  | AppendError error
  | SetBubble jstr
  | ClearInput
  | SetBusy bool

text \<open>
  The variables of lines 35--43, whether the statistics view is shown
  (\<^verbatim>\<open>statsViewActive()\<close>), the item \<^verbatim>\<open>codex.conversationId\<close> of \<^verbatim>\<open>localStorage\<close>, the
  accumulator \<^verbatim>\<open>acc\<close> of the submit handler, and the log of effects.
\<close>

record state =
  conversationId :: json
  usagePage :: int
  usagePageSize :: int
  usageTotal :: int
  usageItems :: "json list"
  historyPage :: int
  historyPageSize :: int
  historyTotal :: int
  historyItems :: "json list"
  statsViewActive :: bool
  stored :: "jstr option"
  acc :: jstr
  effects :: "effect list"

text \<open>
  A page fetch is answered by a network failure or by a response with a status and a
  body that \<^verbatim>\<open>res.json()\<close> parses (\<open>Some\<close>) or rejects (\<open>None\<close>). The answer to the stream
  request has a status, the \<^verbatim>\<open>content-type\<close> header, the result of \<^verbatim>\<open>res.json()\<close> and the
  body: the chunks the reader delivers, and whether the source then ends or fails.
\<close>

datatype page_response =
    PageNetworkError
  | PageResponse int "json option"

datatype stream_end = Closed | Failed

datatype stream_response =
    StreamNetworkError
  | StreamResponse int "jstr option" "json option" "(byte list list \<times> stream_end) option"

text \<open>
  The environment answers a request knowing everything logged before it, so the same
  request may be answered differently at different times.
\<close>

record env =
  json_parse :: "jstr \<Rightarrow> json option"
  page_fetch :: "effect list \<Rightarrow> request \<Rightarrow> page_response"
  stream_fetch :: "effect list \<Rightarrow> json \<Rightarrow> stream_response"
  setItem_works :: bool

text \<open>\<^verbatim>\<open>res.ok\<close>: the status is in the range 200--299.\<close>

definition ok :: "int \<Rightarrow> bool" where
  "ok st \<longleftrightarrow> 200 \<le> st \<and> st \<le> 299"

definition emit :: "effect \<Rightarrow> state \<Rightarrow> state" where
  "emit e s = s\<lparr>effects := effects s @ [e]\<rparr>"

text \<open>The requests among the effects.\<close>

fun requests :: "effect list \<Rightarrow> request list" where
  "requests [] = []"
| "requests (Fetch r # es) = r # requests es"
| "requests (e # es) = requests es"

subsection \<open>Persistence and rendering\<close>

text \<open>
  \<^verbatim>\<open>saveConversationId\<close> (lines 55--63): an exception of the conversion or of the storage
  is swallowed, and nothing is stored then.
\<close>

definition saveConversationId :: "env \<Rightarrow> json \<Rightarrow> state \<Rightarrow> state" where
  "saveConversationId E ident s =
     (if truthy ident
      then (case to_String ident of
              None \<Rightarrow> s
            | Some t \<Rightarrow> if trim t \<noteq> [] \<and> setItem_works E then s\<lparr>stored := Some t\<rparr> else s)
      else s)"

text \<open>
  The page count of \<^verbatim>\<open>renderStats\<close>, \<^verbatim>\<open>renderHistory\<close> and the two "next" handlers:
  \<^verbatim>\<open>total ? Math.max(1, Math.ceil(total / pageSize)) : 1\<close>. A page size of zero makes the
  quotient infinite. The quotient of the source is a double; on safe integers its
  ceiling is the exact one, which is what is written here.
\<close>

datatype pages = Pages int | Unbounded

definition totalPages :: "int \<Rightarrow> int \<Rightarrow> pages" where
  "totalPages tot pageSize =
     (if tot = 0 then Pages 1
      else if pageSize = 0 then (if 0 < tot then Unbounded else Pages 1)
      else Pages (max 1 (- ((- tot) div pageSize))))"

text \<open>\<^verbatim>\<open>page >= totalPages\<close>.\<close>

fun reaches :: "int \<Rightarrow> pages \<Rightarrow> bool" where
  "reaches p (Pages n) = (n \<le> p)"
| "reaches p Unbounded = False"

text \<open>
  What \<^verbatim>\<open>renderStats\<close> and \<^verbatim>\<open>renderHistory\<close> write into the \<^verbatim>\<open>disabled\<close> flags of the
  navigation buttons (lines 129--135 and 184--190).
\<close>

definition statsPrev_disabled :: "state \<Rightarrow> bool" where
  "statsPrev_disabled s \<longleftrightarrow> (if usageTotal s \<noteq> 0 then usagePage s else 1) \<le> 1"

definition statsNext_disabled :: "state \<Rightarrow> bool" where
  "statsNext_disabled s \<longleftrightarrow>
     reaches (if usageTotal s \<noteq> 0 then usagePage s else 1)
       (totalPages (usageTotal s) (usagePageSize s))"

definition historyPrev_disabled :: "state \<Rightarrow> bool" where
  "historyPrev_disabled s \<longleftrightarrow> (if historyTotal s \<noteq> 0 then historyPage s else 1) \<le> 1"

definition historyNext_disabled :: "state \<Rightarrow> bool" where
  "historyNext_disabled s \<longleftrightarrow>
     reaches (if historyTotal s \<noteq> 0 then historyPage s else 1)
       (totalPages (historyTotal s) (historyPageSize s))"

text \<open>
  The render functions write into the page, whose elements are taken to exist; the
  model logs the call. They throw a \<^verbatim>\<open>TypeError\<close> when a value they show cannot be
  converted to a string: \<^verbatim>\<open>renderStats\<close> shows the conversation identity, if there is one
  (line 90), and \<^verbatim>\<open>item?.created_at ? String(item.created_at) : '-'\<close> of every usage item
  (line 117); \<^verbatim>\<open>renderHistory\<close> shows the \<^verbatim>\<open>conversation_id\<close> of every history item in the
  same way (line 156).
\<close>

definition shown :: "json option \<Rightarrow> bool" where
  "shown v \<longleftrightarrow> (case v of None \<Rightarrow> True | Some x \<Rightarrow> \<not> truthy x \<or> to_String x \<noteq> None)"

definition stats_render_ok :: "state \<Rightarrow> bool" where
  "stats_render_ok s \<longleftrightarrow>
     (\<not> truthy (conversationId s) \<or> to_String (conversationId s) \<noteq> None)
     \<and> list_all (\<lambda>item. shown (get_prop item (lit ''created_at''))) (usageItems s)"

definition history_render_ok :: "state \<Rightarrow> bool" where
  "history_render_ok s \<longleftrightarrow>
     list_all (\<lambda>item. shown (get_prop item (lit ''conversation_id''))) (historyItems s)"

definition renderStats :: "state \<Rightarrow> error option \<times> state" where
  "renderStats s = (if stats_render_ok s then None else Some TypeError, emit RenderStats s)"

definition renderHistory :: "state \<Rightarrow> error option \<times> state" where
  "renderHistory s = (if history_render_ok s then None else Some TypeError, emit RenderHistory s)"

subsection \<open>Page fetches\<close>

text \<open>
  The fields of a page response: \<^verbatim>\<open>typeof data?.page === 'number' ? data.page : page\<close>
  and \<^verbatim>\<open>Array.isArray(data?.items) ? data.items : []\<close>.
\<close>

definition num_or :: "json \<Rightarrow> jstr \<Rightarrow> int \<Rightarrow> int" where
  "num_or data k d = (case get_prop data k of Some (JNum n) \<Rightarrow> n | _ \<Rightarrow> d)"

definition items_of :: "json \<Rightarrow> json list" where
  "items_of data = (case get_prop data (lit ''items'') of Some (JArr xs) \<Rightarrow> xs | _ \<Rightarrow> [])"

text \<open>
  \<^verbatim>\<open>loadHistoryPage\<close> (lines 193--208). The result is the exception thrown, if any, and
  the state. The last statement renders, which may throw after the state has changed.
\<close>

definition loadHistoryPage :: "env \<Rightarrow> int \<Rightarrow> state \<Rightarrow> error option \<times> state" where
  "loadHistoryPage E page s =
     (let req = HistoryReq page (historyPageSize s); s1 = emit (Fetch req) s
      in case page_fetch E (effects s) req of
           PageNetworkError \<Rightarrow> (Some NetworkFailure, s1)
         | PageResponse st body \<Rightarrow>
             if \<not> ok st then (Some (Error (lit ''HTTP '' @ dec_str st)), s1)
             else (case body of
                     None \<Rightarrow> (Some BodySyntaxError, s1)
                   | Some data \<Rightarrow>
                       renderHistory (s1
                          \<lparr>historyPage := num_or data (lit ''page'') page,
                           historyPageSize := num_or data (lit ''page_size'') (historyPageSize s1),
                           historyTotal := num_or data (lit ''total'') 0,
                           historyItems := items_of data\<rparr>)))"

text \<open>
  \<^verbatim>\<open>loadUsagePage\<close> (lines 236--260): without a conversation the collection is reset and
  nothing is fetched. \<^verbatim>\<open>new URLSearchParams\<close> converts the identity to a string and throws
  when it cannot, before anything is fetched.
\<close>

definition loadUsagePage :: "env \<Rightarrow> int \<Rightarrow> state \<Rightarrow> error option \<times> state" where
  "loadUsagePage E page s =
     (if \<not> truthy (conversationId s)
      then renderStats (s\<lparr>usagePage := 1, usageTotal := 0, usageItems := []\<rparr>)
      else
        (case to_String (conversationId s) of
           None \<Rightarrow> (Some TypeError, s)
         | Some c \<Rightarrow>
             let req = UsageReq c page (usagePageSize s);
                 s1 = emit (Fetch req) s
             in case page_fetch E (effects s) req of
                  PageNetworkError \<Rightarrow> (Some NetworkFailure, s1)
                | PageResponse st body \<Rightarrow>
                    if \<not> ok st then (Some (Error (lit ''HTTP '' @ dec_str st)), s1)
                    else (case body of
                            None \<Rightarrow> (Some BodySyntaxError, s1)
                          | Some data \<Rightarrow>
                              renderStats (s1
                                 \<lparr>usagePage := num_or data (lit ''page'') page,
                                  usagePageSize := num_or data (lit ''page_size'') (usagePageSize s1),
                                  usageTotal := num_or data (lit ''total'') 0,
                                  usageItems := items_of data\<rparr>))))"

text \<open>
  The navigation handlers (lines 466--502); an exception of the load is ignored.
\<close>

definition statsPrev_click :: "env \<Rightarrow> state \<Rightarrow> state" where
  "statsPrev_click E s =
     (if usagePage s \<le> 1 then s else snd (loadUsagePage E (usagePage s - 1) s))"

definition statsNext_click :: "env \<Rightarrow> state \<Rightarrow> state" where
  "statsNext_click E s =
     (if reaches (usagePage s) (totalPages (usageTotal s) (usagePageSize s)) then s
      else snd (loadUsagePage E (usagePage s + 1) s))"

definition historyPrev_click :: "env \<Rightarrow> state \<Rightarrow> state" where
  "historyPrev_click E s =
     (if historyPage s \<le> 1 then s else snd (loadHistoryPage E (historyPage s - 1) s))"

definition historyNext_click :: "env \<Rightarrow> state \<Rightarrow> state" where
  "historyNext_click E s =
     (if reaches (historyPage s) (totalPages (historyTotal s) (historyPageSize s)) then s
      else snd (loadHistoryPage E (historyPage s + 1) s))"

subsection \<open>The incremental UTF-8 decoder\<close>

text \<open>
  \<^verbatim>\<open>new TextDecoder('utf-8')\<close> with \<^verbatim>\<open>decode(value, { stream: true })\<close>: the decoder of
  the Encoding Standard, which the platform provides. It keeps, between calls, the code
  point under construction, the number of continuation bytes seen and needed, the
  range the next byte must lie in, and whether a byte order mark may still be dropped.
  An ill-formed sequence yields U+FFFD and the offending byte is read again as a lead
  byte. The source never flushes the decoder.
\<close>

record utf8 =
  bom_seen :: bool
  code_point :: nat
  bytes_seen :: nat
  bytes_needed :: nat
  lower_boundary :: nat
  upper_boundary :: nat

definition utf8_init :: utf8 where
  "utf8_init = \<lparr>bom_seen = False, code_point = 0, bytes_seen = 0, bytes_needed = 0,
     lower_boundary = 0x80, upper_boundary = 0xBF\<rparr>"

definition utf8_reset :: "utf8 \<Rightarrow> utf8" where
  "utf8_reset d = d\<lparr>code_point := 0, bytes_seen := 0, bytes_needed := 0,
     lower_boundary := 0x80, upper_boundary := 0xBF\<rparr>"

text \<open>A byte read when no continuation byte is awaited.\<close>

definition utf8_lead :: "utf8 \<Rightarrow> nat \<Rightarrow> utf8 \<times> nat list" where
  "utf8_lead d b =
     (if b \<le> 0x7F then (d, [b])
      else if 0xC2 \<le> b \<and> b \<le> 0xDF
        then (d\<lparr>code_point := b mod 32, bytes_needed := 1\<rparr>, [])
      else if 0xE0 \<le> b \<and> b \<le> 0xEF
        then (d\<lparr>code_point := b mod 16, bytes_needed := 2,
                lower_boundary := (if b = 0xE0 then 0xA0 else lower_boundary d),
                upper_boundary := (if b = 0xED then 0x9F else upper_boundary d)\<rparr>, [])
      else if 0xF0 \<le> b \<and> b \<le> 0xF4
        then (d\<lparr>code_point := b mod 8, bytes_needed := 3,
                lower_boundary := (if b = 0xF0 then 0x90 else lower_boundary d),
                upper_boundary := (if b = 0xF4 then 0x8F else upper_boundary d)\<rparr>, [])
      else (d, [0xFFFD]))"

definition utf8_byte :: "utf8 \<Rightarrow> byte \<Rightarrow> utf8 \<times> nat list" where
  "utf8_byte d w =
     (let b = unat w in
      if bytes_needed d = 0 then utf8_lead d b
      else if b < lower_boundary d \<or> upper_boundary d < b
        then (case utf8_lead (utf8_reset d) b of (d', out) \<Rightarrow> (d', 0xFFFD # out))
      else
        let d1 = d\<lparr>code_point := code_point d * 64 + b mod 64,
                   bytes_seen := bytes_seen d + 1,
                   lower_boundary := 0x80, upper_boundary := 0xBF\<rparr>
        in if bytes_seen d1 \<noteq> bytes_needed d1 then (d1, [])
           else (utf8_reset d1, [code_point d1]))"

text \<open>A code point as UTF-16 code units.\<close>

definition utf16 :: "nat \<Rightarrow> jstr" where
  "utf16 cp =
     (if cp < 0x10000 then [cp]
      else [0xD800 + (cp - 0x10000) div 0x400, 0xDC00 + (cp - 0x10000) mod 0x400])"

text \<open>The code points go to the output, but for a byte order mark at the very start.\<close>

fun serialize :: "utf8 \<Rightarrow> nat list \<Rightarrow> utf8 \<times> jstr" where
  "serialize d [] = (d, [])"
| "serialize d (cp # cps) =
     (if \<not> bom_seen d \<and> cp = 0xFEFF then serialize (d\<lparr>bom_seen := True\<rparr>) cps
      else (case serialize (d\<lparr>bom_seen := True\<rparr>) cps of
              (d', out) \<Rightarrow> (d', utf16 cp @ out)))"

definition decode_byte :: "utf8 \<Rightarrow> byte \<Rightarrow> utf8 \<times> jstr" where
  "decode_byte d w = (case utf8_byte d w of (d', cps) \<Rightarrow> serialize d' cps)"

fun decode :: "utf8 \<Rightarrow> byte list \<Rightarrow> utf8 \<times> jstr" where
  "decode d [] = (d, [])"
| "decode d (w # ws) =
     (case decode_byte d w of (d1, t1) \<Rightarrow>
        (case decode d1 ws of (d2, t2) \<Rightarrow> (d2, t1 @ t2)))"

subsection \<open>Frames\<close>

text \<open>
  Lines 354--368: the lines of a frame-block set the event name and collect the data;
  a block without data, or whose data is not JSON, is skipped (\<open>None\<close>).
\<close>

definition scan_line :: "jstr \<Rightarrow> jstr \<times> jstr \<Rightarrow> jstr \<times> jstr" where
  "scan_line line nd =
     (case nd of (eventName, dataJson) \<Rightarrow>
       (if startsWith line (lit ''event:'')
          then trim (drop (length (lit ''event:'')) line) else eventName,
        if startsWith line (lit ''data:'')
          then dataJson @ trim (drop (length (lit ''data:'')) line) else dataJson))"

definition scan_block :: "jstr \<Rightarrow> jstr \<times> jstr" where
  "scan_block chunk = fold scan_line (split_nl chunk) (lit ''message'', [])"

definition parse_block :: "env \<Rightarrow> jstr \<Rightarrow> (jstr \<times> json) option" where
  "parse_block E chunk =
     (case scan_block chunk of (eventName, dataJson) \<Rightarrow>
        if dataJson = [] then None
        else (case json_parse E dataJson of
                None \<Rightarrow> None
              | Some data \<Rightarrow> Some (eventName, data)))"

subsection \<open>Dispatch\<close>

text \<open>
  The pair of guarded page loads that the \<^verbatim>\<open>meta\<close>, \<^verbatim>\<open>stats\<close> and \<^verbatim>\<open>done\<close> branches
  repeat: the current usage page, then the current history page; a failed load renders
  what is there. An exception of that rendering is not caught: it leaves the refresh,
  and \<^verbatim>\<open>runAgentStream\<close> with it.
\<close>

definition refresh_history :: "env \<Rightarrow> state \<Rightarrow> error option \<times> state" where
  "refresh_history E s =
     (case loadHistoryPage E (historyPage s) s of
        (None, s') \<Rightarrow> (None, s')
      | (Some e, s') \<Rightarrow> renderHistory s')"

definition refresh :: "env \<Rightarrow> state \<Rightarrow> error option \<times> state" where
  "refresh E s =
     (case loadUsagePage E (usagePage s) s of
        (None, s1) \<Rightarrow> refresh_history E s1
      | (Some e, s1) \<Rightarrow>
          (case renderStats s1 of
             (None, s2) \<Rightarrow> refresh_history E s2
           | (Some e', s2) \<Rightarrow> (Some e', s2)))"

datatype control = Next | Return | Throw error

text \<open>A branch ends as intended, or with the exception that left it.\<close>

fun settle :: "control \<Rightarrow> error option \<times> state \<Rightarrow> control \<times> state" where
  "settle c (None, s) = (c, s)"
| "settle c (Some e, s) = (Throw e, s)"

text \<open>
  Lines 370--422: what one parsed frame does. \<^verbatim>\<open>new Error(v)\<close> converts its message to a
  string.
\<close>

definition dispatch ::
  "env \<Rightarrow> (jstr \<Rightarrow> state \<Rightarrow> state) \<Rightarrow> jstr \<times> json \<Rightarrow> state \<Rightarrow> control \<times> state" where
  "dispatch E onDelta frame s =
     (case frame of (eventName, data) \<Rightarrow>
      if eventName = lit ''meta'' \<and> truthy_opt (get_prop data (lit ''conversation_id''))
      then
        (let s1 = (case get_prop data (lit ''conversation_id'') of
                     Some c \<Rightarrow> s\<lparr>conversationId := c\<rparr> | None \<Rightarrow> s);
             s2 = saveConversationId E (conversationId s1) s1;
             s3 = s2\<lparr>usagePage := 1\<rparr>
         in settle Next (if statsViewActive s3 then refresh E s3 else renderStats s3))
      else if eventName = lit ''delta''
                \<and> (case get_prop data (lit ''delta'') of Some (JStr t) \<Rightarrow> True | _ \<Rightarrow> False)
      then (case get_prop data (lit ''delta'') of
              Some (JStr t) \<Rightarrow> (Next, onDelta t s) | _ \<Rightarrow> (Next, s))
      else if eventName = lit ''stats'' \<and> truthy data
      then (if statsViewActive s then settle Next (refresh E s) else (Next, s))
      else if eventName = lit ''error''
      then (Throw (case get_prop data (lit ''message'') of
                     Some m \<Rightarrow>
                       if truthy m
                       then (case to_String m of Some t \<Rightarrow> Error t | None \<Rightarrow> TypeError)
                       else Error (lit ''stream error'')
                   | None \<Rightarrow> Error (lit ''stream error'')), s)
      else if eventName = lit ''done''
      then
        (let s1 = (case get_prop data (lit ''conversation_id'') of
                     Some c \<Rightarrow> if truthy c then s\<lparr>conversationId := c\<rparr> else s
                   | None \<Rightarrow> s)
         in settle Return (if statsViewActive s1 then refresh E s1 else renderStats s1))
      else (Next, s))"

subsection \<open>The read loop\<close>

text \<open>
  The inner loop of lines 350--423: as long as the buffer holds a separator, the block
  before it is cut off and handled. The result says how the loop was left and, when it
  ran to its end, what stays in the buffer.
\<close>

function drain ::
  "env \<Rightarrow> (jstr \<Rightarrow> state \<Rightarrow> state) \<Rightarrow> jstr \<Rightarrow> state \<Rightarrow> control \<times> jstr \<times> state" where
  "drain E onDelta buffer s =
     (case indexOf_nn buffer of
        None \<Rightarrow> (Next, buffer, s)
      | Some sepIndex \<Rightarrow>
          (case parse_block E (take sepIndex buffer) of
             None \<Rightarrow> drain E onDelta (drop (sepIndex + 2) buffer) s
           | Some frame \<Rightarrow>
               (case dispatch E onDelta frame s of
                  (Next, s') \<Rightarrow> drain E onDelta (drop (sepIndex + 2) buffer) s'
                | (c, s') \<Rightarrow> (c, drop (sepIndex + 2) buffer, s'))))"
  by pat_completeness auto

termination
proof (relation "measure (\<lambda>(E, onDelta, buffer, s). length buffer)")
  have bound: "i + 2 \<le> length b" if "indexOf_nn b = Some i" for b i
    using that by (induction b arbitrary: i rule: indexOf_nn.induct) (auto split: if_splits)
  show "wf (measure (\<lambda>(E, onDelta, buffer, s). length buffer))"
    by simp
  show "((E, onDelta, drop (sepIndex + 2) buffer, s), (E, onDelta, buffer, s))
          \<in> measure (\<lambda>(E, onDelta, buffer, s). length buffer)"
    if "indexOf_nn buffer = Some sepIndex"
    for E :: env and onDelta :: "jstr \<Rightarrow> state \<Rightarrow> state" and buffer sepIndex and s :: state
    using bound [OF that] by simp
  show "((E, onDelta, drop (sepIndex + 2) buffer, s'), (E, onDelta, buffer, s))
          \<in> measure (\<lambda>(E, onDelta, buffer, s). length buffer)"
    if "indexOf_nn buffer = Some sepIndex"
    for E :: env and onDelta :: "jstr \<Rightarrow> state \<Rightarrow> state" and buffer sepIndex
      and s s' :: state
    using bound [OF that] by simp
qed

declare drain.simps [simp del]

text \<open>
  The outer loop of lines 343--424 over the chunks the reader delivers. When the source
  is exhausted the loop is left and the function ends.
\<close>

fun read_loop ::
  "env \<Rightarrow> (jstr \<Rightarrow> state \<Rightarrow> state) \<Rightarrow> byte list list \<Rightarrow> stream_end \<Rightarrow> utf8 \<Rightarrow> jstr
     \<Rightarrow> state \<Rightarrow> error option \<times> state" where
  "read_loop E onDelta [] fin d buffer s =
     (case fin of Closed \<Rightarrow> (None, s) | Failed \<Rightarrow> (Some ReadFailure, s))"
| "read_loop E onDelta (v # vs) fin d buffer s =
     (case decode d v of (d', t) \<Rightarrow>
        (case drain E onDelta (buffer @ t) s of
           (Next, buffer', s') \<Rightarrow> read_loop E onDelta vs fin d' buffer' s'
         | (Return, buffer', s') \<Rightarrow> (None, s')
         | (Throw err, buffer', s') \<Rightarrow> (Some err, s')))"

subsection \<open>Sending a message\<close>

text \<open>
  \<^verbatim>\<open>runAgentStream\<close> (lines 311--425), with the request body and the detail of an
  HTTP error set apart; a detail that cannot be converted throws inside the \<^verbatim>\<open>try\<close> and
  is left out.
\<close>

definition payload_of :: "jstr \<Rightarrow> state \<Rightarrow> json" where
  "payload_of message s =
     JObj ((lit ''message'', JStr message) #
       (if truthy (conversationId s) then [(lit ''conversation_id'', conversationId s)] else []))"

definition http_detail :: "json option \<Rightarrow> jstr" where
  "http_detail js =
     (case js of
        None \<Rightarrow> []
      | Some data \<Rightarrow>
          (case get_prop data (lit ''detail'') of
             None \<Rightarrow> []
           | Some dt \<Rightarrow>
               if truthy dt
               then (case to_String dt of Some t \<Rightarrow> lit '': '' @ t | None \<Rightarrow> [])
               else []))"

definition runAgentStream ::
  "env \<Rightarrow> (jstr \<Rightarrow> state \<Rightarrow> state) \<Rightarrow> jstr \<Rightarrow> state \<Rightarrow> error option \<times> state" where
  "runAgentStream E onDelta message s =
     (let payload = payload_of message s;
          s1 = emit (Fetch (StreamReq payload)) s
      in case stream_fetch E (effects s) payload of
           StreamNetworkError \<Rightarrow> (Some NetworkFailure, s1)
         | StreamResponse st ctype js body \<Rightarrow>
             (let contentType = toLowerCase (case ctype of None \<Rightarrow> [] | Some c \<Rightarrow> c)
              in if \<not> ok st
                 then (Some (Error (lit ''HTTP '' @ dec_str st @ http_detail js)), s1)
                 else if \<not> includes_str contentType (lit ''text/event-stream'') \<or> body = None
                 then (Some (Error (lit ''Server did not return text/event-stream'')), s1)
                 else (case body of
                         None \<Rightarrow>
                           (Some (Error (lit ''Server did not return text/event-stream'')), s1)
                       | Some (chunks, fin) \<Rightarrow>
                           read_loop E onDelta chunks fin utf8_init [] s1)))"

text \<open>
  The submit handler (lines 511--534) with its callback, which appends to \<^verbatim>\<open>acc\<close> and
  shows it in the assistant's bubble.
\<close>

definition onDelta_submit :: "jstr \<Rightarrow> state \<Rightarrow> state" where
  "onDelta_submit delta s = emit (SetBubble (acc s @ delta)) (s\<lparr>acc := acc s @ delta\<rparr>)"

definition submit :: "env \<Rightarrow> jstr \<Rightarrow> state \<Rightarrow> state" where
  "submit E val s =
     (let txt = trim val in
      if txt = [] then s
      else
        let s1 = emit (SetBusy True) (emit ClearInput (emit (AppendMessage (lit ''user'') txt) s));
            s2 = (emit (AppendMessage (lit ''assistant'') []) s1)\<lparr>acc := []\<rparr>
        in case runAgentStream E onDelta_submit txt s2 of
             (None, s3) \<Rightarrow> emit (SetBusy False) s3
           | (Some err, s3) \<Rightarrow> emit (SetBusy False) (emit (AppendError err) s3))"

subsection \<open>The frame decoder and the dispatcher, apart\<close>

text \<open>
  The source fuses decoding and dispatch in one loop. Taken apart, the decoder is the
  sequence of frames that the blocks of the stream parse to, and the dispatcher handles
  that sequence until a frame ends the stream. \<open>frames_in\<close> cuts a buffer as the inner
  loop does and returns the frames with what stays in the buffer.
\<close>

function frames_in :: "env \<Rightarrow> jstr \<Rightarrow> (jstr \<times> json) list \<times> jstr" where
  "frames_in E buffer =
     (case indexOf_nn buffer of
        None \<Rightarrow> ([], buffer)
      | Some sepIndex \<Rightarrow>
          (case frames_in E (drop (sepIndex + 2) buffer) of
             (fs, r) \<Rightarrow>
               ((case parse_block E (take sepIndex buffer) of
                   None \<Rightarrow> [] | Some frame \<Rightarrow> [frame]) @ fs, r)))"
  by pat_completeness auto

termination
proof (relation "measure (\<lambda>(E, buffer). length buffer)")
  have bound: "i + 2 \<le> length b" if "indexOf_nn b = Some i" for b i
    using that by (induction b arbitrary: i rule: indexOf_nn.induct) (auto split: if_splits)
  show "wf (measure (\<lambda>(E, buffer). length buffer))"
    by simp
  show "((E, drop (sepIndex + 2) buffer), (E, buffer)) \<in> measure (\<lambda>(E, buffer). length buffer)"
    if "indexOf_nn buffer = Some sepIndex" for E :: env and buffer sepIndex
    using bound [OF that] by simp
qed

declare frames_in.simps [simp del]

fun decode_frames :: "env \<Rightarrow> utf8 \<Rightarrow> jstr \<Rightarrow> byte list list \<Rightarrow> (jstr \<times> json) list" where
  "decode_frames E d buffer [] = []"
| "decode_frames E d buffer (v # vs) =
     (case decode d v of (d', t) \<Rightarrow>
        (case frames_in E (buffer @ t) of (fs, r) \<Rightarrow> fs @ decode_frames E d' r vs))"

fun dispatch_all ::
  "env \<Rightarrow> (jstr \<Rightarrow> state \<Rightarrow> state) \<Rightarrow> (jstr \<times> json) list \<Rightarrow> state \<Rightarrow> control \<times> state" where
  "dispatch_all E onDelta [] s = (Next, s)"
| "dispatch_all E onDelta (frame # frames) s =
     (case dispatch E onDelta frame s of
        (Next, s') \<Rightarrow> dispatch_all E onDelta frames s'
      | (c, s') \<Rightarrow> (c, s'))"

text \<open>How the read loop ends after the dispatcher has run.\<close>

fun finish :: "stream_end \<Rightarrow> control \<times> state \<Rightarrow> error option \<times> state" where
  "finish fin (Next, s) = (case fin of Closed \<Rightarrow> (None, s) | Failed \<Rightarrow> (Some ReadFailure, s))"
| "finish fin (Return, s) = (None, s)"
| "finish fin (Throw err, s) = (Some err, s)"

subsection \<open>A sample browser\<close>

text \<open>
  The module state when the script has loaded with an empty storage (lines 35--43 and
  433--441), and an environment for running the model on concrete streams:
  \<open>sample_parse\<close> is \<^verbatim>\<open>JSON.parse\<close> on the few payloads of the samples (and on \<^verbatim>\<open>not-json\<close>,
  which it rejects).
\<close>

definition init_state :: state where
  "init_state = \<lparr>conversationId = JNull,
     usagePage = 1, usagePageSize = 20, usageTotal = 0, usageItems = [],
     historyPage = 1, historyPageSize = 10, historyTotal = 0, historyItems = [],
     statsViewActive = False, stored = None, acc = [], effects = []\<rparr>"

definition sample_parse :: "jstr \<Rightarrow> json option" where
  \<open>sample_parse t =
     map_of
       [(lit ''{"conversation_id":"c1"}'', JObj [(lit ''conversation_id'', JStr (lit ''c1''))]),
        (lit ''{"conversation_id":"X"}'', JObj [(lit ''conversation_id'', JStr (lit ''X''))]),
        (lit ''{"delta":"Hi"}'', JObj [(lit ''delta'', JStr (lit ''Hi''))]),
        (lit ''{"delta":7}'', JObj [(lit ''delta'', JNum 7)]),
        (lit ''{"delta":"'' @ [233] @ lit ''"}'', JObj [(lit ''delta'', JStr [233])]),
        (lit ''{}'', JObj [])] t\<close>

definition sample_env ::
  "(effect list \<Rightarrow> request \<Rightarrow> page_response) \<Rightarrow> (byte list list \<times> stream_end) \<Rightarrow> env" where
  "sample_env pf body =
     \<lparr>json_parse = sample_parse, page_fetch = pf,
      stream_fetch = (\<lambda>es payload.
         StreamResponse 200 (Some (lit ''text/event-stream; charset=utf-8'')) None (Some body)),
      setItem_works = True\<rparr>"

text \<open>The bytes of an ASCII text, and three frame-blocks of the protocol.\<close>

definition ascii :: "string \<Rightarrow> byte list" where
  "ascii s = map of_char s"

definition block :: "string \<Rightarrow> byte list \<Rightarrow> byte list" where
  "block name payload = ascii ''event: '' @ ascii name @ [10] @ ascii ''data: '' @ payload @ [10, 10]"

text \<open>
  A state with both collections loaded and the statistics view shown, and a browser
  whose page fetches all fail with status 500.
\<close>

definition loaded_state :: state where
  "loaded_state = init_state\<lparr>conversationId := JStr (lit ''c1''), usagePage := 2,
     usageTotal := 25, usageItems := [JObj []], historyPage := 3, historyTotal := 25,
     historyItems := [JObj []], statsViewActive := True\<rparr>"

definition failing_env :: env where
  "failing_env = sample_env (\<lambda>es r. PageResponse 500 None) ([], Closed)"

text \<open>The log of \<open>s'\<close> continues the log of \<open>s\<close>.\<close>

definition extends :: "state \<Rightarrow> state \<Rightarrow> bool" where
  "extends s s' \<longleftrightarrow> take (length (effects s)) (effects s') = effects s"

text \<open>The state in which the history half starts, when the usage half does not throw.\<close>

definition after_usage :: "env \<Rightarrow> state \<Rightarrow> state" where
  "after_usage E s =
     (if fst (loadUsagePage E (usagePage s) s) = None
      then snd (loadUsagePage E (usagePage s) s)
      else emit RenderStats (snd (loadUsagePage E (usagePage s) s)))"

section \<open>Auxiliary facts\<close>

subsection \<open>State fields, requests and exceptions of the page loads\<close>

lemma emit_fields [simp]:
  "conversationId (emit e s) = conversationId s"
  "usagePage (emit e s) = usagePage s"
  "usagePageSize (emit e s) = usagePageSize s"
  "usageTotal (emit e s) = usageTotal s"
  "usageItems (emit e s) = usageItems s"
  "historyPage (emit e s) = historyPage s"
  "historyPageSize (emit e s) = historyPageSize s"
  "historyTotal (emit e s) = historyTotal s"
  "historyItems (emit e s) = historyItems s"
  "statsViewActive (emit e s) = statsViewActive s"
  "stored (emit e s) = stored s"
  "acc (emit e s) = acc s"
  "effects (emit e s) = effects s @ [e]"
  by (simp_all add: emit_def)

lemma ceil_div: "- ((- tot) div pageSize) = \<lceil>real_of_int tot / real_of_int pageSize\<rceil>"
proof -
  have "\<lfloor>real_of_int (- tot) / real_of_int pageSize\<rfloor> = (- tot) div pageSize"
    by (rule floor_divide_of_int_eq)
  then show ?thesis by (simp add: ceiling_def)
qed

lemma requests_append: "requests (xs @ ys) = requests xs @ requests ys"
  by (induction xs rule: requests.induct) simp_all

lemma extends_iff: "extends s s' \<longleftrightarrow> (\<exists>es. effects s' = effects s @ es)"
  unfolding extends_def by (metis append_eq_conv_conj append_take_drop_id)

lemma extends_refl [simp]: "extends s s"
  by (simp add: extends_def)

lemma extends_app: "effects s' = effects s @ es \<Longrightarrow> extends s s'"
  by (auto simp: extends_iff)

lemma extends_trans: "extends s t \<Longrightarrow> extends t u \<Longrightarrow> extends s u"
  by (auto simp: extends_iff)

lemma extends_emit: "extends s t \<Longrightarrow> extends s (emit e t)"
  by (auto simp: extends_iff)

lemma render_snd [simp]:
  "snd (renderStats s) = emit RenderStats s"
  "snd (renderHistory s) = emit RenderHistory s"
  by (simp_all add: renderStats_def renderHistory_def)

lemma render_fst:
  "fst (renderStats s) = (if stats_render_ok s then None else Some TypeError)"
  "fst (renderHistory s) = (if history_render_ok s then None else Some TypeError)"
  by (simp_all add: renderStats_def renderHistory_def)

lemma render_ok_emit [simp]:
  "stats_render_ok (emit e s) = stats_render_ok s"
  "history_render_ok (emit e s) = history_render_ok s"
  by (simp_all add: stats_render_ok_def history_render_ok_def)

lemma loadUsagePage_failure:
  assumes "truthy (conversationId s)" and "to_String (conversationId s) = Some c"
    and "page_fetch E (effects s) (UsageReq c p (usagePageSize s)) = r"
    and "r = PageNetworkError \<or> (\<exists>st body. r = PageResponse st body \<and> (\<not> ok st \<or> body = None))"
  shows "\<exists>e. loadUsagePage E p s = (Some e, emit (Fetch (UsageReq c p (usagePageSize s))) s)"
  using assms by (auto simp: loadUsagePage_def Let_def)

lemma loadHistoryPage_failure:
  assumes "page_fetch E (effects s) (HistoryReq p (historyPageSize s)) = r"
    and "r = PageNetworkError \<or> (\<exists>st body. r = PageResponse st body \<and> (\<not> ok st \<or> body = None))"
  shows "\<exists>e. loadHistoryPage E p s = (Some e, emit (Fetch (HistoryReq p (historyPageSize s))) s)"
  using assms by (auto simp: loadHistoryPage_def Let_def)

text \<open>The requests a load issues do not depend on how it ends.\<close>

lemma loadUsagePage_requests:
  "requests (effects (snd (loadUsagePage E p s))) = requests (effects s)
     @ (if truthy (conversationId s)
        then (case to_String (conversationId s) of
                Some c \<Rightarrow> [UsageReq c p (usagePageSize s)] | None \<Rightarrow> [])
        else [])"
  by (simp add: loadUsagePage_def Let_def requests_append
      split: page_response.splits option.splits)

lemma loadHistoryPage_requests:
  "requests (effects (snd (loadHistoryPage E p s)))
     = requests (effects s) @ [HistoryReq p (historyPageSize s)]"
  by (simp add: loadHistoryPage_def Let_def requests_append
      split: page_response.splits option.splits)

lemma loadUsagePage_keeps [simp]:
  "conversationId (snd (loadUsagePage E p s)) = conversationId s"
  "historyPage (snd (loadUsagePage E p s)) = historyPage s"
  "historyPageSize (snd (loadUsagePage E p s)) = historyPageSize s"
  "statsViewActive (snd (loadUsagePage E p s)) = statsViewActive s"
  "stored (snd (loadUsagePage E p s)) = stored s"
  "acc (snd (loadUsagePage E p s)) = acc s"
  by (simp_all add: loadUsagePage_def Let_def split: page_response.splits option.splits)

lemma loadHistoryPage_keeps [simp]:
  "conversationId (snd (loadHistoryPage E p s)) = conversationId s"
  "usagePage (snd (loadHistoryPage E p s)) = usagePage s"
  "usagePageSize (snd (loadHistoryPage E p s)) = usagePageSize s"
  "statsViewActive (snd (loadHistoryPage E p s)) = statsViewActive s"
  "stored (snd (loadHistoryPage E p s)) = stored s"
  "acc (snd (loadHistoryPage E p s)) = acc s"
  by (simp_all add: loadHistoryPage_def Let_def split: page_response.splits option.splits)

lemma load_extends:
  "extends s (snd (loadUsagePage E p s))"
  "extends s (snd (loadHistoryPage E p s))"
  by (auto simp: loadUsagePage_def loadHistoryPage_def Let_def intro!: extends_app
      split: page_response.splits option.splits)

text \<open>The history half of a refresh.\<close>

lemma refresh_history_snd:
  "snd (refresh_history E s) =
     (if fst (loadHistoryPage E (historyPage s) s) = None
      then snd (loadHistoryPage E (historyPage s) s)
      else emit RenderHistory (snd (loadHistoryPage E (historyPage s) s)))"
  by (cases "loadHistoryPage E (historyPage s) s")
     (auto simp: refresh_history_def split: option.splits)

lemma refresh_history_error:
  "fst (refresh_history E s) = None \<or> fst (refresh_history E s) = Some TypeError"
  by (cases "loadHistoryPage E (historyPage s) s")
     (auto simp: refresh_history_def render_fst split: option.splits)

lemma refresh_history_keeps [simp]:
  "conversationId (snd (refresh_history E s)) = conversationId s"
  "statsViewActive (snd (refresh_history E s)) = statsViewActive s"
  "stored (snd (refresh_history E s)) = stored s"
  "acc (snd (refresh_history E s)) = acc s"
  by (simp_all add: refresh_history_snd)

lemma refresh_history_requests:
  "requests (effects (snd (refresh_history E s)))
     = requests (effects s) @ [HistoryReq (historyPage s) (historyPageSize s)]"
  by (simp add: refresh_history_snd loadHistoryPage_requests requests_append)

lemma refresh_history_extends: "extends s (snd (refresh_history E s))"
  by (simp add: refresh_history_snd load_extends extends_emit)

lemma refresh_cases:
  "refresh E s =
     (if fst (loadUsagePage E (usagePage s) s) = None
           \<or> stats_render_ok (snd (loadUsagePage E (usagePage s) s))
      then refresh_history E (after_usage E s)
      else (Some TypeError, after_usage E s))"
  by (cases "loadUsagePage E (usagePage s) s")
     (auto simp: refresh_def after_usage_def renderStats_def split: option.splits)

lemma after_usage_keeps [simp]:
  "conversationId (after_usage E s) = conversationId s"
  "historyPage (after_usage E s) = historyPage s"
  "historyPageSize (after_usage E s) = historyPageSize s"
  "statsViewActive (after_usage E s) = statsViewActive s"
  "stored (after_usage E s) = stored s"
  "acc (after_usage E s) = acc s"
  by (simp_all add: after_usage_def)

lemma after_usage_requests:
  "requests (effects (after_usage E s)) = requests (effects s)
     @ (if truthy (conversationId s)
        then (case to_String (conversationId s) of
                Some c \<Rightarrow> [UsageReq c (usagePage s) (usagePageSize s)] | None \<Rightarrow> [])
        else [])"
  by (simp add: after_usage_def loadUsagePage_requests requests_append)

lemma after_usage_extends: "extends s (after_usage E s)"
  by (simp add: after_usage_def load_extends extends_emit)

lemma refresh_error: "fst (refresh E s) = None \<or> fst (refresh E s) = Some TypeError"
  using refresh_history_error [of E "after_usage E s"] by (simp add: refresh_cases)

lemma refresh_keeps [simp]:
  "conversationId (snd (refresh E s)) = conversationId s"
  "statsViewActive (snd (refresh E s)) = statsViewActive s"
  "stored (snd (refresh E s)) = stored s"
  "acc (snd (refresh E s)) = acc s"
  by (simp_all add: refresh_cases)

text \<open>A refresh that does not throw has issued both requests.\<close>

lemma refresh_convertible:
  assumes "fst (refresh E s) = None" and "truthy (conversationId s)"
  shows "to_String (conversationId s) \<noteq> None"
proof
  assume n: "to_String (conversationId s) = None"
  have "loadUsagePage E (usagePage s) s = (Some TypeError, s)"
    using assms(2) n by (simp add: loadUsagePage_def)
  moreover have "\<not> stats_render_ok s"
    using assms(2) n by (simp add: stats_render_ok_def)
  ultimately have "fst (refresh E s) = Some TypeError"
    by (simp add: refresh_cases)
  then show False using assms(1) by simp
qed

lemma refresh_requests_ok:
  assumes "fst (refresh E s) = None"
  shows "requests (effects (snd (refresh E s))) = requests (effects s)
     @ (if truthy (conversationId s)
        then (case to_String (conversationId s) of
                Some c \<Rightarrow> [UsageReq c (usagePage s) (usagePageSize s)] | None \<Rightarrow> [])
        else [])
     @ [HistoryReq (historyPage s) (historyPageSize s)]"
proof -
  have "refresh E s = refresh_history E (after_usage E s)"
    using assms by (auto simp: refresh_cases split: if_splits)
  then show ?thesis
    by (simp add: refresh_history_requests after_usage_requests)
qed

lemma refresh_extends: "extends s (snd (refresh E s))"
  using after_usage_extends [of s E] refresh_history_extends [of "after_usage E s" E]
  by (auto simp: refresh_cases intro: extends_trans)

subsection \<open>One frame\<close>

lemma names_distinct [simp]:
  "lit ''meta'' \<noteq> lit ''delta''" "lit ''meta'' \<noteq> lit ''stats''" "lit ''meta'' \<noteq> lit ''error''"
  "lit ''meta'' \<noteq> lit ''done''" "lit ''delta'' \<noteq> lit ''stats''" "lit ''delta'' \<noteq> lit ''error''"
  "lit ''delta'' \<noteq> lit ''done''" "lit ''stats'' \<noteq> lit ''error''" "lit ''stats'' \<noteq> lit ''done''"
  "lit ''error'' \<noteq> lit ''done''"
  "lit ''delta'' \<noteq> lit ''meta''" "lit ''stats'' \<noteq> lit ''meta''" "lit ''error'' \<noteq> lit ''meta''"
  "lit ''done'' \<noteq> lit ''meta''" "lit ''stats'' \<noteq> lit ''delta''" "lit ''error'' \<noteq> lit ''delta''"
  "lit ''done'' \<noteq> lit ''delta''" "lit ''error'' \<noteq> lit ''stats''" "lit ''done'' \<noteq> lit ''stats''"
  "lit ''done'' \<noteq> lit ''error''"
  by (simp_all add: lit_def)

lemma saveConversationId_keeps [simp]:
  "conversationId (saveConversationId E c s) = conversationId s"
  "usagePage (saveConversationId E c s) = usagePage s"
  "usagePageSize (saveConversationId E c s) = usagePageSize s"
  "historyPage (saveConversationId E c s) = historyPage s"
  "historyPageSize (saveConversationId E c s) = historyPageSize s"
  "statsViewActive (saveConversationId E c s) = statsViewActive s"
  "acc (saveConversationId E c s) = acc s"
  "effects (saveConversationId E c s) = effects s"
  by (simp_all add: saveConversationId_def split: option.splits)

lemma settle_snd [simp]: "snd (settle c r) = snd r"
  by (cases r; cases "fst r") auto

lemma settle_fst: "fst (settle c r) = (case fst r of None \<Rightarrow> c | Some e \<Rightarrow> Throw e)"
  by (cases r; cases "fst r") auto

text \<open>What leaves a render or a refresh is a \<^verbatim>\<open>TypeError\<close>.\<close>

lemma settle_render:
  "fst (settle c (renderStats s)) = c \<or> fst (settle c (renderStats s)) = Throw TypeError"
  by (simp add: settle_fst render_fst)

lemma settle_refresh:
  "fst (settle c (refresh E s)) = c \<or> fst (settle c (refresh E s)) = Throw TypeError"
  using refresh_error [of E s] by (auto simp: settle_fst)

lemma dispatch_delta_other:
  assumes "\<forall>t. get_prop data (lit ''delta'') \<noteq> Some (JStr t)"
  shows "dispatch E onDelta (lit ''delta'', data) s = (Next, s)"
proof -
  have "(case get_prop data (lit ''delta'') of Some (JStr t) \<Rightarrow> True | _ \<Rightarrow> False) = False"
    using assms by (auto split: option.splits json.splits)
  then show ?thesis by (simp add: dispatch_def)
qed

lemma dispatch_conversationId:
  assumes cb: "\<And>t s. conversationId (onDelta t s) = conversationId s"
  shows "conversationId (snd (dispatch E onDelta (n, data) s)) =
     (case get_prop data (lit ''conversation_id'') of
        Some c \<Rightarrow> if (n = lit ''meta'' \<or> n = lit ''done'') \<and> truthy c then c else conversationId s
      | None \<Rightarrow> conversationId s)"
  by (auto simp: dispatch_def Let_def cb split: option.splits json.splits)

lemma dispatch_stats_hidden:
  "\<not> statsViewActive s \<Longrightarrow> dispatch E onDelta (lit ''stats'', data) s = (Next, s)"
  by (simp add: dispatch_def)

text \<open>How a frame leaves the inner loop.\<close>

lemma dispatch_control:
  assumes "n \<noteq> lit ''error''" and "n \<noteq> lit ''done''"
  shows "fst (dispatch E f (n, data) s) = Next \<or> fst (dispatch E f (n, data) s) = Throw TypeError"
proof -
  have "fst (dispatch E f (n, data) s) = Next \<or> fst (dispatch E f (n, data) s) = Throw TypeError"
    if "n = lit ''meta''" "truthy_opt (get_prop data (lit ''conversation_id''))"
    using that settle_render settle_refresh by (simp add: dispatch_def Let_def)
  moreover have "fst (dispatch E f (n, data) s) = Next \<or> fst (dispatch E f (n, data) s) = Throw TypeError"
    if "n = lit ''stats''" "truthy data"
    using that settle_refresh by (simp add: dispatch_def)
  moreover have "fst (dispatch E f (n, data) s) = Next"
    if "\<not> (n = lit ''meta'' \<and> truthy_opt (get_prop data (lit ''conversation_id'')))"
       "\<not> (n = lit ''stats'' \<and> truthy data)"
    using that assms by (auto simp: dispatch_def split: option.splits json.splits)
  ultimately show ?thesis by blast
qed

lemma dispatch_done_control:
  "fst (dispatch E f (lit ''done'', data) s) = Return
   \<or> fst (dispatch E f (lit ''done'', data) s) = Throw TypeError"
  using settle_render settle_refresh by (simp add: dispatch_def Let_def)

lemma dispatch_terminal:
  "n = lit ''error'' \<or> n = lit ''done'' \<Longrightarrow> fst (dispatch E f (n, data) s) \<noteq> Next"
  using dispatch_done_control [of E f data s] by (auto simp: dispatch_def)

text \<open>The requests of a frame that is handled without an exception.\<close>

lemma dispatch_stats_requests:
  assumes "statsViewActive s" and "truthy data"
    and "fst (dispatch E onDelta (lit ''stats'', data) s) = Next"
  shows "requests (effects (snd (dispatch E onDelta (lit ''stats'', data) s)))
     = requests (effects s)
       @ (if truthy (conversationId s)
          then (case to_String (conversationId s) of
                  Some c \<Rightarrow> [UsageReq c (usagePage s) (usagePageSize s)] | None \<Rightarrow> [])
          else [])
       @ [HistoryReq (historyPage s) (historyPageSize s)]"
proof -
  have d: "dispatch E onDelta (lit ''stats'', data) s = settle Next (refresh E s)"
    using assms(1,2) by (simp add: dispatch_def)
  have "fst (refresh E s) = None"
    using assms(3) unfolding d by (simp add: settle_fst split: option.splits)
  then show ?thesis
    unfolding d by (simp add: refresh_requests_ok)
qed

lemma dispatch_meta_requests:
  assumes "statsViewActive s" and "get_prop data (lit ''conversation_id'') = Some c"
    and "truthy c" and "fst (dispatch E onDelta (lit ''meta'', data) s) = Next"
  shows "\<exists>t. to_String c = Some t
     \<and> requests (effects (snd (dispatch E onDelta (lit ''meta'', data) s)))
         = requests (effects s)
           @ [UsageReq t 1 (usagePageSize s), HistoryReq (historyPage s) (historyPageSize s)]"
proof -
  define s3 where "s3 = (saveConversationId E c (s\<lparr>conversationId := c\<rparr>))\<lparr>usagePage := 1\<rparr>"
  have d: "dispatch E onDelta (lit ''meta'', data) s = settle Next (refresh E s3)"
    using assms(1,2,3) by (simp add: dispatch_def Let_def s3_def)
  have ok: "fst (refresh E s3) = None"
    using assms(4) unfolding d by (simp add: settle_fst split: option.splits)
  have c: "conversationId s3 = c" "truthy (conversationId s3)"
    using assms(3) by (simp_all add: s3_def)
  obtain t where t: "to_String c = Some t"
    using refresh_convertible [OF ok c(2)] c(1) by auto
  have "requests (effects (snd (refresh E s3))) = requests (effects s)
      @ [UsageReq t 1 (usagePageSize s), HistoryReq (historyPage s) (historyPageSize s)]"
    using refresh_requests_ok [OF ok] c t by (simp add: s3_def)
  then show ?thesis
    using t unfolding d by simp
qed

lemma extends_same:
  "effects t = effects s \<Longrightarrow> extends s (snd (refresh E t))"
  "effects t = effects s \<Longrightarrow> extends s (emit e t)"
  using refresh_extends [of t E] by (simp_all add: extends_def)

lemma dispatch_extends:
  assumes cb: "\<And>t s. extends s (f t s)"
  shows "extends s (snd (dispatch E f fr s))"
proof -
  obtain n data where fr: "fr = (n, data)" by (cases fr)
  show ?thesis
    unfolding fr
    by (auto simp: dispatch_def Let_def cb extends_same split: option.splits json.splits)
qed

subsection \<open>The inner loop and the frames of a buffer\<close>

lemma indexOf_nn_bound: "indexOf_nn b = Some i \<Longrightarrow> i + 2 \<le> length b"
  by (induction b arbitrary: i rule: indexOf_nn.induct) (auto split: if_splits)

lemma indexOf_nn_append: "indexOf_nn b = Some i \<Longrightarrow> indexOf_nn (b @ t) = Some i"
  by (induction b arbitrary: i rule: indexOf_nn.induct) (auto split: if_splits)

lemma drain_none: "indexOf_nn b = None \<Longrightarrow> drain E f b s = (Next, b, s)"
  by (subst drain.simps) simp

lemma drain_skip:
  "indexOf_nn b = Some i \<Longrightarrow> parse_block E (take i b) = None \<Longrightarrow>
     drain E f b s = drain E f (drop (i + 2) b) s"
  by (subst drain.simps) simp

lemma drain_frame:
  "indexOf_nn b = Some i \<Longrightarrow> parse_block E (take i b) = Some fr \<Longrightarrow>
     drain E f b s =
       (case dispatch E f fr s of
          (Next, s') \<Rightarrow> drain E f (drop (i + 2) b) s'
        | (c, s') \<Rightarrow> (c, drop (i + 2) b, s'))"
  by (subst drain.simps) simp

lemma frames_in_none: "indexOf_nn b = None \<Longrightarrow> frames_in E b = ([], b)"
  by (subst frames_in.simps) simp

lemma frames_in_some:
  "indexOf_nn b = Some i \<Longrightarrow>
     frames_in E b =
       (case frames_in E (drop (i + 2) b) of
          (fs, r) \<Rightarrow> ((case parse_block E (take i b) of None \<Rightarrow> [] | Some fr \<Rightarrow> [fr]) @ fs, r))"
  by (subst frames_in.simps) simp

lemma frames_in_rest: "indexOf_nn (snd (frames_in E b)) = None"
proof (induction E b rule: frames_in.induct)
  case (1 E b)
  show ?case
  proof (cases "indexOf_nn b")
    case None
    then show ?thesis by (simp add: frames_in_none)
  next
    case (Some i)
    then show ?thesis using "1.IH" [OF Some] by (simp add: frames_in_some case_prod_beta)
  qed
qed

lemma frames_in_append:
  "frames_in E (b @ t) =
     (fst (frames_in E b) @ fst (frames_in E (snd (frames_in E b) @ t)),
      snd (frames_in E (snd (frames_in E b) @ t)))"
proof (induction E b rule: frames_in.induct)
  case (1 E b)
  show ?case
  proof (cases "indexOf_nn b")
    case None
    then show ?thesis by (simp add: frames_in_none)
  next
    case (Some i)
    have ia: "indexOf_nn (b @ t) = Some i"
      using Some by (rule indexOf_nn_append)
    have tk: "take i (b @ t) = take i b" and dr: "drop (i + 2) (b @ t) = drop (i + 2) b @ t"
      using indexOf_nn_bound [OF Some] by simp_all
    have "frames_in E (b @ t) =
       (case frames_in E (drop (i + 2) b @ t) of
          (fs, r) \<Rightarrow> ((case parse_block E (take i b) of None \<Rightarrow> [] | Some fr \<Rightarrow> [fr]) @ fs, r))"
      using frames_in_some [OF ia, of E] by (simp only: tk dr)
    then show ?thesis
      using "1.IH" [OF Some] frames_in_some [OF Some, of E]
      by (simp split: prod.splits)
  qed
qed

lemma decode_append:
  "decode d (a @ b) =
     (fst (decode (fst (decode d a)) b), snd (decode d a) @ snd (decode (fst (decode d a)) b))"
  by (induction a arbitrary: d) (simp_all split: prod.splits)

lemma dispatch_all_append:
  "dispatch_all E f (xs @ ys) s =
     (case dispatch_all E f xs s of (Next, s') \<Rightarrow> dispatch_all E f ys s' | (c, s') \<Rightarrow> (c, s'))"
  by (induction xs arbitrary: s) (simp_all split: prod.splits control.splits)

lemma drain_frames:
  "(case drain E f b s of (c, r, s') \<Rightarrow> (c, s')) = dispatch_all E f (fst (frames_in E b)) s"
  "fst (drain E f b s) = Next \<Longrightarrow> fst (snd (drain E f b s)) = snd (frames_in E b)"
proof (induction E f b s rule: drain.induct)
  case (1 E f b s)
  {
    case 1
    show ?case
    proof (cases "indexOf_nn b")
      case None
      then show ?thesis by (simp add: drain_none frames_in_none)
    next
      case (Some i)
      note i = Some
      show ?thesis
      proof (cases "parse_block E (take i b)")
        case None
        then show ?thesis
          using "1.IH"(1) [OF i None] drain_skip [OF i None, of f s] frames_in_some [OF i, of E]
          by (simp split: prod.splits)
      next
        case (Some fr)
        obtain c s1 where d: "dispatch E f fr s = (c, s1)"
          by (cases "dispatch E f fr s")
        show ?thesis
          using "1.IH"(3) [OF i Some, of c s1] drain_frame [OF i Some, of f s] d
            frames_in_some [OF i, of E] Some
          by (cases c) (simp_all split: prod.splits)
      qed
    qed
  next
    case 2
    show ?case
    proof (cases "indexOf_nn b")
      case None
      then show ?thesis by (simp add: drain_none frames_in_none)
    next
      case (Some i)
      note i = Some
      show ?thesis
      proof (cases "parse_block E (take i b)")
        case None
        then show ?thesis
          using "1.IH"(2) [OF i None] drain_skip [OF i None, of f s] frames_in_some [OF i, of E] "2"
          by (simp split: prod.splits)
      next
        case (Some fr)
        obtain c s1 where d: "dispatch E f fr s = (c, s1)"
          by (cases "dispatch E f fr s")
        show ?thesis
          using "1.IH"(4) [OF i Some, of c s1] drain_frame [OF i Some, of f s] d
            frames_in_some [OF i, of E] Some "2"
          by (cases c) (simp_all split: prod.splits)
      qed
    qed
  }
qed

lemma decode_frames_single:
  "decode_frames E d buf [v] = fst (frames_in E (buf @ snd (decode d v)))"
  by (simp split: prod.splits)

lemma decode_frames_concat:
  "indexOf_nn buf = None \<Longrightarrow> decode_frames E d buf chunks = decode_frames E d buf [concat chunks]"
proof (induction chunks arbitrary: d buf)
  case Nil
  then show ?case by (simp add: frames_in_none)
next
  case (Cons v vs)
  define d1 where "d1 = fst (decode d v)"
  define t1 where "t1 = snd (decode d v)"
  define r1 where "r1 = snd (frames_in E (buf @ t1))"
  define t2 where "t2 = snd (decode d1 (concat vs))"
  have r1: "indexOf_nn r1 = None"
    unfolding r1_def by (rule frames_in_rest)
  have "decode_frames E d buf (v # vs) = fst (frames_in E (buf @ t1)) @ decode_frames E d1 r1 vs"
    by (simp add: d1_def t1_def r1_def split: prod.splits)
  also have "decode_frames E d1 r1 vs = fst (frames_in E (r1 @ t2))"
    using Cons.IH [OF r1, of d1] by (simp only: decode_frames_single t2_def)
  also have "fst (frames_in E (buf @ t1)) @ fst (frames_in E (r1 @ t2)) = fst (frames_in E ((buf @ t1) @ t2))"
    by (subst (3) frames_in_append) (simp add: r1_def)
  also have "(buf @ t1) @ t2 = buf @ snd (decode d (v @ concat vs))"
    by (simp add: decode_append t1_def t2_def d1_def)
  finally show ?case
    by (simp only: decode_frames_single concat.simps)
qed

lemma read_loop_frames:
  "read_loop E f chunks fin d buf s = finish fin (dispatch_all E f (decode_frames E d buf chunks) s)"
proof (induction chunks arbitrary: d buf s)
  case Nil
  then show ?case by simp
next
  case (Cons v vs)
  obtain d1 t1 where dv: "decode d v = (d1, t1)"
    by (cases "decode d v")
  obtain c r s1 where dr: "drain E f (buf @ t1) s = (c, r, s1)"
    by (cases "drain E f (buf @ t1) s")
  have da: "dispatch_all E f (fst (frames_in E (buf @ t1))) s = (c, s1)"
    using drain_frames(1) [of E f "buf @ t1" s] dr by simp
  have df: "decode_frames E d buf (v # vs) =
      fst (frames_in E (buf @ t1)) @ decode_frames E d1 (snd (frames_in E (buf @ t1))) vs"
    by (simp add: dv split: prod.splits)
  show ?case
  proof (cases c)
    case Next
    have r: "r = snd (frames_in E (buf @ t1))"
      using drain_frames(2) [of E f "buf @ t1" s] dr Next by simp
    show ?thesis
      using Cons.IH [of d1 r s1]
      by (simp add: dv dr Next df dispatch_all_append da r del: decode_frames.simps)
  next
    case Return
    then show ?thesis
      by (simp add: dv dr df dispatch_all_append da del: decode_frames.simps)
  next
    case (Throw e)
    then show ?thesis
      by (simp add: dv dr df dispatch_all_append da del: decode_frames.simps)
  qed
qed

lemma read_loop_concat:
  "indexOf_nn buf = None \<Longrightarrow>
     read_loop E f chunks fin d buf s = read_loop E f [concat chunks] fin d buf s"
  by (simp only: read_loop_frames decode_frames_concat [of buf E d chunks])

lemma dispatch_all_identity:
  assumes cb: "\<And>t s. conversationId (f t s) = conversationId s"
  shows "(\<forall>fr \<in> set fs. \<not> ((fst fr = lit ''meta'' \<or> fst fr = lit ''done'')
            \<and> truthy_opt (get_prop (snd fr) (lit ''conversation_id'')))) \<Longrightarrow>
     conversationId (snd (dispatch_all E f fs s)) = conversationId s"
proof (induction fs arbitrary: s)
  case Nil
  then show ?case by simp
next
  case (Cons fr fs)
  obtain n data where fr: "fr = (n, data)" by (cases fr)
  obtain c s1 where d: "dispatch E f (n, data) s = (c, s1)" by (cases "dispatch E f (n, data) s")
  have k: "conversationId s1 = conversationId s"
    using dispatch_conversationId [of f E n data s, OF cb] d Cons.prems fr
    by (auto split: option.splits)
  show ?case
    using Cons.IH [of s1] Cons.prems fr d k by (cases c) simp_all
qed

lemma dispatch_all_truthy:
  assumes cb: "\<And>t s. conversationId (f t s) = conversationId s"
  shows "truthy (conversationId s) \<Longrightarrow> truthy (conversationId (snd (dispatch_all E f fs s)))"
proof (induction fs arbitrary: s)
  case Nil
  then show ?case by simp
next
  case (Cons fr fs)
  obtain n data where fr: "fr = (n, data)" by (cases fr)
  obtain c s1 where d: "dispatch E f (n, data) s = (c, s1)" by (cases "dispatch E f (n, data) s")
  have k: "truthy (conversationId s1)"
    using dispatch_conversationId [of f E n data s, OF cb] d Cons.prems
    by (auto split: option.splits)
  show ?case
    using Cons.IH [OF k] fr d k by (cases c) simp_all
qed

lemma snd_finish [simp]: "snd (finish fin cs) = snd cs"
  by (cases cs; cases "fst cs"; cases fin) auto

subsection \<open>Runs of the dispatcher\<close>

lemma dispatch_all_no_terminal:
  "(\<forall>fr \<in> set fs. fst fr \<noteq> lit ''error'' \<and> fst fr \<noteq> lit ''done'') \<Longrightarrow>
     fst (dispatch_all E f fs s) = Next \<or> fst (dispatch_all E f fs s) = Throw TypeError"
proof (induction fs arbitrary: s)
  case Nil
  then show ?case by simp
next
  case (Cons fr fs)
  obtain n data where fr: "fr = (n, data)" by (cases fr)
  obtain c s1 where d: "dispatch E f (n, data) s = (c, s1)" by (cases "dispatch E f (n, data) s")
  have "c = Next \<or> c = Throw TypeError"
    using dispatch_control [of n E f data s] d Cons.prems fr by simp
  then show ?case using Cons.IH [of s1] Cons.prems fr d by auto
qed

lemma dispatch_all_next_prefix:
  "fst (dispatch_all E f (xs @ ys) s) = Next \<Longrightarrow> fst (dispatch_all E f xs s) = Next"
  by (cases "dispatch_all E f xs s"; cases "fst (dispatch_all E f xs s)")
     (auto simp: dispatch_all_append)

lemma dispatch_all_extends:
  assumes cb: "\<And>t s. extends s (f t s)"
  shows "extends s (snd (dispatch_all E f fs s))"
proof (induction fs arbitrary: s)
  case Nil
  then show ?case by simp
next
  case (Cons fr fs)
  obtain c s1 where d: "dispatch E f fr s = (c, s1)" by (cases "dispatch E f fr s")
  have e: "extends s s1"
    using dispatch_extends [of f s E fr, OF cb] d by simp
  show ?case
    using Cons.IH [of s1] d e by (cases c) (auto intro: extends_trans)
qed

lemma read_loop_extends:
  assumes cb: "\<And>t s. extends s (f t s)"
  shows "extends s (snd (read_loop E f chunks fin d buf s))"
  using dispatch_all_extends [of f s E, OF cb] by (simp add: read_loop_frames)

lemma runAgentStream_first_effect:
  assumes cb: "\<And>t s. extends s (f t s)"
  shows "take (Suc (length (effects s))) (effects (snd (runAgentStream E f m s)))
           = effects s @ [Fetch (StreamReq (payload_of m s))]"
proof -
  define s1 where "s1 = emit (Fetch (StreamReq (payload_of m s))) s"
  have e1: "effects s1 = effects s @ [Fetch (StreamReq (payload_of m s))]"
    by (simp add: s1_def)
  have "extends s1 (snd (runAgentStream E f m s))"
    using read_loop_extends [of f s1 E, OF cb]
    by (simp add: runAgentStream_def Let_def s1_def [symmetric]
        split: stream_response.splits option.splits prod.splits)
  then show ?thesis
    by (simp add: extends_def e1)
qed

lemma submit_empty: "trim v = [] \<Longrightarrow> submit E v s = s"
  by (simp add: submit_def)

lemma onDelta_submit_extends: "extends s (onDelta_submit t s)"
  by (simp add: onDelta_submit_def extends_def)

lemma onDelta_submit_conversationId: "conversationId (onDelta_submit t s) = conversationId s"
  by (simp add: onDelta_submit_def)


subsection \<open>Running the samples\<close>

lemmas decoder_eval = ascii_def block_def utf8_init_def utf8_reset_def utf8_lead_def utf8_byte_def
  utf16_def decode_byte_def

lemmas block_eval = lit_def parse_block_def scan_block_def scan_line_def trim_def is_ws_def
  sample_parse_def

lemma frames_in_eval:
  "indexOf_nn b = None \<Longrightarrow> frames_in E b = ([], b)"
  "indexOf_nn b = Some i \<Longrightarrow> parse_block E (take i b) = None \<Longrightarrow>
     frames_in E b = frames_in E (drop (i + 2) b)"
  "indexOf_nn b = Some i \<Longrightarrow> parse_block E (take i b) = Some fr \<Longrightarrow>
     frames_in E b = (fr # fst (frames_in E (drop (i + 2) b)), snd (frames_in E (drop (i + 2) b)))"
  by (simp_all add: frames_in_none frames_in_some split: prod.splits)

lemma sample_runAgentStream:
  "runAgentStream (sample_env pf (chunks, fin)) f m s =
     finish fin (dispatch_all (sample_env pf (chunks, fin)) f
       (decode_frames (sample_env pf (chunks, fin)) utf8_init [] chunks)
       (emit (Fetch (StreamReq (payload_of m s))) s))"
  by (simp add: runAgentStream_def sample_env_def Let_def ok_def toLowerCase_def lower_cu_def
      lit_def read_loop_frames)

lemma sample_meta_text:
  \<open>snd (decode utf8_init (block ''meta'' (ascii ''{"conversation_id":"c1"}''))) =
     lit ''event: meta'' @ [10] @ lit ''data: {"conversation_id":"c1"}'' @ [10, 10]\<close>
  by (simp add: decoder_eval lit_def)

lemma sample_meta_frames:
  assumes "json_parse E = sample_parse"
  shows \<open>decode_frames E utf8_init [] [block ''meta'' (ascii ''{"conversation_id":"c1"}'')] =
     [(lit ''meta'', JObj [(lit ''conversation_id'', JStr (lit ''c1''))])]\<close>
  by (simp add: decode_frames_single sample_meta_text del: decode_frames.simps)
     (simp add: frames_in_eval block_eval assms)

lemma scan_keeps_name:
  "(\<forall>l \<in> set ls. \<not> startsWith l (lit ''event:'')) \<Longrightarrow> fst (fold scan_line ls (n, d)) = n"
  by (induction ls arbitrary: n d) (simp_all add: scan_line_def)

lemma parse_block_none:
  "snd (scan_block chunk) = [] \<or> json_parse E (snd (scan_block chunk)) = None \<Longrightarrow>
     parse_block E chunk = None"
  by (auto simp: parse_block_def split: prod.splits option.splits)

lemma sample_delta_hi:
  assumes "json_parse E = sample_parse"
  shows \<open>drain E onDelta_submit (lit ''event: delta'' @ [10] @ lit ''data: {"delta":"Hi"}'' @ [10, 10]) s
     = (Next, [], onDelta_submit (lit ''Hi'') s)\<close>
proof -
  have i: \<open>indexOf_nn (lit ''event: delta'' @ [10] @ lit ''data: {"delta":"Hi"}'' @ [10, 10]) = Some 33\<close>
    by (simp add: lit_def)
  have p: \<open>parse_block E (take 33 (lit ''event: delta'' @ [10] @ lit ''data: {"delta":"Hi"}'' @ [10, 10]))
      = Some (lit ''delta'', JObj [(lit ''delta'', JStr (lit ''Hi''))])\<close>
    by (simp add: block_eval assms)
  have r: \<open>drop (33 + 2) (lit ''event: delta'' @ [10] @ lit ''data: {"delta":"Hi"}'' @ [10, 10]) = []\<close>
    by (simp add: lit_def)
  have d: "dispatch E onDelta_submit (lit ''delta'', JObj [(lit ''delta'', JStr (lit ''Hi''))]) s
      = (Next, onDelta_submit (lit ''Hi'') s)"
    by (simp add: dispatch_def)
  show ?thesis
    by (simp only: drain_frame [OF i p] r d) (simp add: drain_none)
qed

lemma finish_closed_next: "fst cs = Next \<Longrightarrow> finish Closed cs = (None, snd cs)"
  by (cases cs) simp

lemma sample_accent_text:
  \<open>snd (decode utf8_init ((ascii ''event: delta'' @ [10] @ ascii ''data: {"delta":"'' @ [0xC3])
      @ [0xA9] @ ascii ''"}'' @ [10, 10])) =
     lit ''event: delta'' @ [10] @ lit ''data: {"delta":"'' @ [233] @ lit ''"}'' @ [10, 10]\<close>
  by (simp add: decoder_eval lit_def)

lemma sample_done_text:
  \<open>snd (decode utf8_init (block ''done'' (ascii ''{"conversation_id":"X"}'')
       @ block ''delta'' (ascii ''{"delta":"Hi"}''))) =
     lit ''event: done'' @ [10] @ lit ''data: {"conversation_id":"X"}'' @ [10, 10]
       @ lit ''event: delta'' @ [10] @ lit ''data: {"delta":"Hi"}'' @ [10, 10]\<close>
  by (simp add: decoder_eval lit_def)

lemma sample_done_frames:
  assumes "json_parse E = sample_parse"
  shows \<open>decode_frames E utf8_init []
       [block ''done'' (ascii ''{"conversation_id":"X"}'') @ block ''delta'' (ascii ''{"delta":"Hi"}'')] =
     [(lit ''done'', JObj [(lit ''conversation_id'', JStr (lit ''X''))]),
      (lit ''delta'', JObj [(lit ''delta'', JStr (lit ''Hi''))])]\<close>
proof -
  let ?t2 = \<open>lit ''event: delta'' @ [10] @ lit ''data: {"delta":"Hi"}'' @ [10, 10]\<close>
  let ?t = \<open>lit ''event: done'' @ [10] @ lit ''data: {"conversation_id":"X"}'' @ [10, 10] @ ?t2\<close>
  have i: "indexOf_nn ([] @ ?t) = Some 41"
    by (simp add: lit_def)
  have p: "parse_block E (take 41 ([] @ ?t))
      = Some (lit ''done'', JObj [(lit ''conversation_id'', JStr (lit ''X''))])"
    by (simp add: block_eval assms)
  have r: "drop (41 + 2) ([] @ ?t) = ?t2"
    by (simp add: lit_def)
  have i2: "indexOf_nn ?t2 = Some 33"
    by (simp add: lit_def)
  have p2: "parse_block E (take 33 ?t2) = Some (lit ''delta'', JObj [(lit ''delta'', JStr (lit ''Hi''))])"
    by (simp add: block_eval assms)
  have r2: "indexOf_nn (drop (33 + 2) ?t2) = None"
    by (simp add: lit_def)
  show ?thesis
    by (simp only: decode_frames_single sample_done_text frames_in_eval(3) [OF i p] r
        frames_in_eval(3) [OF i2 p2] frames_in_eval(1) [OF r2] fst_conv)
qed

lemmas frame_eval = dispatch_def Let_def renderStats_def renderHistory_def stats_render_ok_def
  history_render_ok_def shown_def saveConversationId_def refresh_def refresh_history_def
  loadUsagePage_def loadHistoryPage_def

section \<open>The claims\<close>

text \<open>
  C1, as stated, fails: a stream whose source is exhausted after a \<^verbatim>\<open>meta\<close> frame, with no
  \<^verbatim>\<open>done\<close> and no \<^verbatim>\<open>error\<close> frame, makes \<^verbatim>\<open>runAgentStream\<close> return normally: the loop is
  left by \<^verbatim>\<open>break\<close> and the function ends, no failure is reported to the caller.
\<close>

theorem exhausted_stream_returns_normally:
  \<open>fst (runAgentStream
     (sample_env (\<lambda>es r. PageNetworkError) ([block ''meta'' (ascii ''{"conversation_id":"c1"}'')], Closed))
     onDelta_submit (lit ''hi'') init_state) = None\<close>
proof -
  let ?E = \<open>sample_env (\<lambda>es r. PageNetworkError) ([block ''meta'' (ascii ''{"conversation_id":"c1"}'')], Closed)\<close>
  have j: "json_parse ?E = sample_parse"
    by (simp add: sample_env_def)
  have n: "fst (dispatch_all ?E onDelta_submit
      [(lit ''meta'', JObj [(lit ''conversation_id'', JStr (lit ''c1''))])]
      (emit (Fetch (StreamReq (payload_of (lit ''hi'') init_state))) init_state)) = Next"
    by (simp add: frame_eval init_state_def lit_def)
  show ?thesis
    by (simp only: sample_runAgentStream sample_meta_frames [OF j] finish_closed_next [OF n] fst_conv)
qed

text \<open>
  C1, amended. When the response is a stream whose source is exhausted and none of its
  frames is named \<^verbatim>\<open>error\<close> or \<^verbatim>\<open>done\<close>, \<^verbatim>\<open>runAgentStream\<close> synthesizes no failure: it
  returns normally. The one exception that can still leave it is the \<^verbatim>\<open>TypeError\<close> of a
  value that cannot be converted to a string while a frame is handled (a conversation
  identity or a shown field that is an object with a \<^verbatim>\<open>toString\<close> property); the
  statement is about the calls that this does not happen to. The identity that the last
  \<^verbatim>\<open>meta\<close> frame with a non-empty id established is then the identity afterwards: it is not
  rolled back. The callback is assumed to leave the conversation identity alone.
\<close>

theorem exhausted_stream_keeps_identity:
  assumes "stream_fetch E (effects s) (payload_of message s)
             = StreamResponse st ctype js (Some (chunks, Closed))"
    and "ok st"
    and "includes_str (toLowerCase (case ctype of None \<Rightarrow> [] | Some c \<Rightarrow> c)) (lit ''text/event-stream'')"
    and "\<forall>fr \<in> set (decode_frames E utf8_init [] chunks).
           fst fr \<noteq> lit ''error'' \<and> fst fr \<noteq> lit ''done''"
    and "\<forall>t s. conversationId (onDelta t s) = conversationId s"
    and "fst (runAgentStream E onDelta message s) \<noteq> Some TypeError"
  shows "fst (runAgentStream E onDelta message s) = None
    \<and> (decode_frames E utf8_init [] chunks = fs1 @ (lit ''meta'', data) # fs2
        \<and> get_prop data (lit ''conversation_id'') = Some c \<and> truthy c
        \<and> (\<forall>fr \<in> set fs2. \<not> (fst fr = lit ''meta''
               \<and> truthy_opt (get_prop (snd fr) (lit ''conversation_id''))))
       \<longrightarrow> conversationId (snd (runAgentStream E onDelta message s)) = c)"
proof -
  define s1 where "s1 = emit (Fetch (StreamReq (payload_of message s))) s"
  define frames where "frames = decode_frames E utf8_init [] chunks"
  have cb: "conversationId (onDelta t s) = conversationId s" for t s
    using assms(5) by simp
  have run: "runAgentStream E onDelta message s = finish Closed (dispatch_all E onDelta frames s1)"
    using assms(1,2,3)
    by (simp add: runAgentStream_def Let_def s1_def frames_def read_loop_frames)
  have "fst (dispatch_all E onDelta frames s1) = Next
      \<or> fst (dispatch_all E onDelta frames s1) = Throw TypeError"
    using assms(4) unfolding frames_def by (rule dispatch_all_no_terminal)
  moreover have "fst (dispatch_all E onDelta frames s1) \<noteq> Throw TypeError"
    using assms(6) unfolding run
    by (cases "dispatch_all E onDelta frames s1") auto
  ultimately have nx: "fst (dispatch_all E onDelta frames s1) = Next"
    by simp
  have res: "runAgentStream E onDelta message s = (None, snd (dispatch_all E onDelta frames s1))"
    unfolding run using nx by (rule finish_closed_next)
  have ident: "conversationId (snd (dispatch_all E onDelta frames s1)) = c"
    if f: "frames = fs1 @ (lit ''meta'', data) # fs2"
      and c: "get_prop data (lit ''conversation_id'') = Some c" "truthy c"
      and l: "\<forall>fr \<in> set fs2. \<not> (fst fr = lit ''meta''
               \<and> truthy_opt (get_prop (snd fr) (lit ''conversation_id'')))"
  proof -
    have nt: "\<forall>fr \<in> set frames. fst fr \<noteq> lit ''error'' \<and> fst fr \<noteq> lit ''done''"
      using assms(4) by (simp add: frames_def)
    have f': "frames = (fs1 @ [(lit ''meta'', data)]) @ fs2"
      using f by simp
    have "fst (dispatch_all E onDelta (fs1 @ [(lit ''meta'', data)]) s1) = Next"
      using nx unfolding f' by (rule dispatch_all_next_prefix)
    moreover from this have "fst (dispatch_all E onDelta fs1 s1) = Next"
      by (rule dispatch_all_next_prefix)
    ultimately obtain sa sb where a: "dispatch_all E onDelta fs1 s1 = (Next, sa)"
      and b: "dispatch E onDelta (lit ''meta'', data) sa = (Next, sb)"
      by (cases "dispatch_all E onDelta fs1 s1"; cases "dispatch E onDelta (lit ''meta'', data)
            (snd (dispatch_all E onDelta fs1 s1))")
         (auto simp: dispatch_all_append split: control.splits)
    have cb': "conversationId sb = c"
      using dispatch_conversationId [of onDelta E "lit ''meta''" data sa, OF cb] b c by simp
    have k: "\<forall>fr \<in> set fs2. \<not> ((fst fr = lit ''meta'' \<or> fst fr = lit ''done'')
            \<and> truthy_opt (get_prop (snd fr) (lit ''conversation_id'')))"
      using l nt f by auto
    have "conversationId (snd (dispatch_all E onDelta fs2 sb)) = conversationId sb"
      using cb k by (rule dispatch_all_identity)
    then show ?thesis
      by (simp add: f dispatch_all_append a b cb')
  qed
  show ?thesis
    using res ident by (simp add: frames_def)
qed

text \<open>
  The witness: the stream of the counterexample; the identity \<^verbatim>\<open>c1\<close> of its \<^verbatim>\<open>meta\<close> frame
  is kept.
\<close>

theorem exhausted_stream_keeps_identity_witness:
  \<open>fst (runAgentStream
     (sample_env (\<lambda>es r. PageNetworkError) ([block ''meta'' (ascii ''{"conversation_id":"c1"}'')], Closed))
     onDelta_submit (lit ''hi'') init_state) = None
   \<and> conversationId (snd (runAgentStream
     (sample_env (\<lambda>es r. PageNetworkError) ([block ''meta'' (ascii ''{"conversation_id":"c1"}'')], Closed))
     onDelta_submit (lit ''hi'') init_state)) = JStr (lit ''c1'')\<close>
proof -
  let ?chunks = \<open>[block ''meta'' (ascii ''{"conversation_id":"c1"}'')]\<close>
  let ?E = \<open>sample_env (\<lambda>es r. PageNetworkError) (?chunks, Closed)\<close>
  let ?data = "JObj [(lit ''conversation_id'', JStr (lit ''c1''))]"
  have j: "json_parse ?E = sample_parse"
    by (simp add: sample_env_def)
  have fr: "decode_frames ?E utf8_init [] ?chunks = [] @ (lit ''meta'', ?data) # []"
    unfolding sample_meta_frames [OF j] by simp
  have h1: "stream_fetch ?E (effects init_state) (payload_of (lit ''hi'') init_state)
      = StreamResponse 200 (Some (lit ''text/event-stream; charset=utf-8'')) None (Some (?chunks, Closed))"
    by (simp add: sample_env_def)
  have h2: "ok 200"
    by (simp add: ok_def)
  have h3: "includes_str (toLowerCase (case Some (lit ''text/event-stream; charset=utf-8'') of
      None \<Rightarrow> [] | Some c \<Rightarrow> c)) (lit ''text/event-stream'')"
    by (simp add: toLowerCase_def lower_cu_def lit_def)
  have h4: "\<forall>fr \<in> set (decode_frames ?E utf8_init [] ?chunks).
      fst fr \<noteq> lit ''error'' \<and> fst fr \<noteq> lit ''done''"
    unfolding sample_meta_frames [OF j] by simp
  have h5: "\<forall>t s. conversationId (onDelta_submit t s) = conversationId s"
    by (simp add: onDelta_submit_conversationId)
  have n: "fst (dispatch_all ?E onDelta_submit [(lit ''meta'', ?data)]
      (emit (Fetch (StreamReq (payload_of (lit ''hi'') init_state))) init_state)) = Next"
    by (simp add: frame_eval init_state_def lit_def)
  have h6: "fst (runAgentStream ?E onDelta_submit (lit ''hi'') init_state) \<noteq> Some TypeError"
    by (simp only: sample_runAgentStream sample_meta_frames [OF j] finish_closed_next [OF n])
       simp
  have h7: "get_prop ?data (lit ''conversation_id'') = Some (JStr (lit ''c1''))"
    "truthy (JStr (lit ''c1''))"
    by (simp_all add: lit_def)
  have h8: "\<forall>fr \<in> set []. \<not> (fst fr = lit ''meta''
      \<and> truthy_opt (get_prop (snd fr) (lit ''conversation_id'')))"
    by simp
  note th = exhausted_stream_keeps_identity [OF h1 h2 h3 h4 h5 h6,
      of "[]" ?data "[]" "JStr (lit ''c1'')"]
  have a: "fst (runAgentStream ?E onDelta_submit (lit ''hi'') init_state) = None"
    using th by blast
  have b: "conversationId (snd (runAgentStream ?E onDelta_submit (lit ''hi'') init_state))
      = JStr (lit ''c1'')"
    using th fr h7 h8 by blast
  show ?thesis
    using a b by (rule conjI)
qed

text \<open>
  C2, as stated, fails: with the view shown, the usage collection on page 2 and the
  history collection on page 3, a \<^verbatim>\<open>stats\<close> frame fetches usage page 2 and history page 3,
  not page 1 of each; and with no conversation identity it fetches the history page only,
  one request and not two.
\<close>

theorem stats_refresh_pages_counterexample:
  "requests (effects (snd (dispatch failing_env onDelta_submit (lit ''stats'', JObj []) loaded_state)))
     = [UsageReq (lit ''c1'') 2 20, HistoryReq 3 10]
   \<and> requests (effects (snd (dispatch failing_env onDelta_submit (lit ''stats'', JObj [])
        (init_state\<lparr>statsViewActive := True\<rparr>))))
     = [HistoryReq 1 10]"
  by (simp add: frame_eval failing_env_def sample_env_def loaded_state_def init_state_def
      ok_def lit_def)

text \<open>
  C2, amended. With the view shown, a \<^verbatim>\<open>stats\<close> frame with a truthy payload that is handled
  without an exception issues the usage fetch at the current usage page, if there is a
  conversation identity, and then the history fetch at the current history page, and no
  other request; a \<^verbatim>\<open>meta\<close> frame with a non-empty id that is handled without an exception
  issues the usage fetch for the new identity at page 1 and then the history fetch at
  the current history page. With the view not shown a \<^verbatim>\<open>stats\<close> frame changes nothing: no
  request is issued. The exception that can interrupt a refresh is the \<^verbatim>\<open>TypeError\<close> of a
  value that cannot be converted to a string. Nothing is said about a \<^verbatim>\<open>done\<close> frame.
\<close>

theorem refresh_requests:
  "(statsViewActive s \<and> truthy data
      \<and> fst (dispatch E onDelta (lit ''stats'', data) s) = Next \<longrightarrow>
      (truthy (conversationId s) \<and> to_String (conversationId s) = Some t \<longrightarrow>
         requests (effects (snd (dispatch E onDelta (lit ''stats'', data) s)))
           = requests (effects s)
             @ [UsageReq t (usagePage s) (usagePageSize s),
                HistoryReq (historyPage s) (historyPageSize s)])
      \<and> (\<not> truthy (conversationId s) \<longrightarrow>
         requests (effects (snd (dispatch E onDelta (lit ''stats'', data) s)))
           = requests (effects s) @ [HistoryReq (historyPage s) (historyPageSize s)]))
   \<and> (statsViewActive s \<and> get_prop data (lit ''conversation_id'') = Some c \<and> truthy c
      \<and> to_String c = Some t
      \<and> fst (dispatch E onDelta (lit ''meta'', data) s) = Next \<longrightarrow>
      requests (effects (snd (dispatch E onDelta (lit ''meta'', data) s)))
        = requests (effects s)
          @ [UsageReq t 1 (usagePageSize s),
             HistoryReq (historyPage s) (historyPageSize s)])
   \<and> (\<not> statsViewActive s \<longrightarrow> dispatch E onDelta (lit ''stats'', data) s = (Next, s))"
proof (intro conjI impI)
  assume a: "statsViewActive s \<and> truthy data
      \<and> fst (dispatch E onDelta (lit ''stats'', data) s) = Next"
  then have r: "requests (effects (snd (dispatch E onDelta (lit ''stats'', data) s)))
     = requests (effects s)
       @ (if truthy (conversationId s)
          then (case to_String (conversationId s) of
                  Some c \<Rightarrow> [UsageReq c (usagePage s) (usagePageSize s)] | None \<Rightarrow> [])
          else [])
       @ [HistoryReq (historyPage s) (historyPageSize s)]"
    by (simp add: dispatch_stats_requests)
  show "requests (effects (snd (dispatch E onDelta (lit ''stats'', data) s)))
           = requests (effects s)
             @ [UsageReq t (usagePage s) (usagePageSize s),
                HistoryReq (historyPage s) (historyPageSize s)]"
    if "truthy (conversationId s) \<and> to_String (conversationId s) = Some t"
    using that r by simp
  show "requests (effects (snd (dispatch E onDelta (lit ''stats'', data) s)))
           = requests (effects s) @ [HistoryReq (historyPage s) (historyPageSize s)]"
    if "\<not> truthy (conversationId s)"
    using that r by simp
next
  assume a: "statsViewActive s \<and> get_prop data (lit ''conversation_id'') = Some c \<and> truthy c
      \<and> to_String c = Some t
      \<and> fst (dispatch E onDelta (lit ''meta'', data) s) = Next"
  then show "requests (effects (snd (dispatch E onDelta (lit ''meta'', data) s)))
        = requests (effects s)
          @ [UsageReq t 1 (usagePageSize s),
             HistoryReq (historyPage s) (historyPageSize s)]"
    using dispatch_meta_requests [of s data c E onDelta] by auto
next
  assume "\<not> statsViewActive s"
  then show "dispatch E onDelta (lit ''stats'', data) s = (Next, s)"
    by (rule dispatch_stats_hidden)
qed

text \<open>
  The witness: the loaded state (usage page 2, history page 3, view shown) with and
  without a conversation identity for the \<^verbatim>\<open>stats\<close> frame and for the \<^verbatim>\<open>meta\<close> frame, the initial
  state (view not shown) for the last part.
\<close>

theorem refresh_requests_witness:
  "requests (effects (snd (dispatch failing_env onDelta_submit (lit ''stats'', JObj []) loaded_state)))
     = [UsageReq (lit ''c1'') 2 20, HistoryReq 3 10]
   \<and> requests (effects (snd (dispatch failing_env onDelta_submit (lit ''stats'', JObj [])
        (init_state\<lparr>statsViewActive := True\<rparr>))))
     = [HistoryReq 1 10]
   \<and> requests (effects (snd (dispatch failing_env onDelta_submit
        (lit ''meta'', JObj [(lit ''conversation_id'', JStr (lit ''X''))]) loaded_state)))
     = [UsageReq (lit ''X'') 1 20, HistoryReq 3 10]
   \<and> dispatch failing_env onDelta_submit (lit ''stats'', JObj []) init_state = (Next, init_state)"
proof -
  let ?shown = "init_state\<lparr>statsViewActive := True\<rparr>"
  let ?meta = "JObj [(lit ''conversation_id'', JStr (lit ''X''))]"
  have n1: "fst (dispatch failing_env onDelta_submit (lit ''stats'', JObj []) loaded_state) = Next"
    by (simp add: frame_eval failing_env_def sample_env_def loaded_state_def init_state_def
        ok_def lit_def)
  have n2: "fst (dispatch failing_env onDelta_submit (lit ''stats'', JObj []) ?shown) = Next"
    by (simp add: frame_eval failing_env_def sample_env_def init_state_def ok_def lit_def)
  have n3: "fst (dispatch failing_env onDelta_submit (lit ''meta'', ?meta) loaded_state) = Next"
    by (simp add: frame_eval failing_env_def sample_env_def loaded_state_def init_state_def
        ok_def trim_def is_ws_def lit_def)
  have a: "requests (effects (snd (dispatch failing_env onDelta_submit (lit ''stats'', JObj [])
        loaded_state))) = requests (effects loaded_state)
          @ [UsageReq (lit ''c1'') (usagePage loaded_state) (usagePageSize loaded_state),
             HistoryReq (historyPage loaded_state) (historyPageSize loaded_state)]"
    using refresh_requests [where s = loaded_state and data = "JObj []" and E = failing_env
        and onDelta = onDelta_submit and t = "lit ''c1''"] n1
    by (simp add: loaded_state_def lit_def)
  have b: "requests (effects (snd (dispatch failing_env onDelta_submit (lit ''stats'', JObj [])
        ?shown))) = requests (effects ?shown)
          @ [HistoryReq (historyPage ?shown) (historyPageSize ?shown)]"
    using refresh_requests [where s = ?shown and data = "JObj []" and E = failing_env
        and onDelta = onDelta_submit] n2
    by (simp add: init_state_def)
  have c: "requests (effects (snd (dispatch failing_env onDelta_submit (lit ''meta'', ?meta)
        loaded_state))) = requests (effects loaded_state)
          @ [UsageReq (lit ''X'') 1 (usagePageSize loaded_state),
             HistoryReq (historyPage loaded_state) (historyPageSize loaded_state)]"
    using refresh_requests [where s = loaded_state and data = ?meta and c = "JStr (lit ''X'')"
        and t = "lit ''X''" and E = failing_env and onDelta = onDelta_submit] n3
    by (simp add: loaded_state_def lit_def)
  have d: "dispatch failing_env onDelta_submit (lit ''stats'', JObj []) init_state = (Next, init_state)"
    using refresh_requests [where s = init_state and data = "JObj []" and E = failing_env
        and onDelta = onDelta_submit]
    by (simp add: init_state_def)
  show ?thesis
    using a b c d by (simp add: loaded_state_def init_state_def)
qed

text \<open>
  C3. A \<^verbatim>\<open>done\<close> frame with a non-empty \<^verbatim>\<open>conversation_id\<close> sets the conversation identity and
  ends the stream, with success unless the rendering that follows throws a \<^verbatim>\<open>TypeError\<close>,
  but it leaves the stored identity as it was: \<^verbatim>\<open>saveConversationId\<close> is not called, where
  a \<^verbatim>\<open>meta\<close> frame with the same id stores it (when the id converts to a string that is not
  blank and the storage accepts it).
\<close>

theorem done_identity_not_persisted:
  "(get_prop data (lit ''conversation_id'') = Some c \<and> truthy c \<longrightarrow>
      conversationId (snd (dispatch E onDelta (lit ''done'', data) s)) = c
      \<and> stored (snd (dispatch E onDelta (lit ''done'', data) s)) = stored s
      \<and> (fst (dispatch E onDelta (lit ''done'', data) s) = Return
         \<or> fst (dispatch E onDelta (lit ''done'', data) s) = Throw TypeError))
   \<and> (get_prop data (lit ''conversation_id'') = Some c \<and> truthy c
        \<and> to_String c = Some t \<and> trim t \<noteq> [] \<and> setItem_works E \<longrightarrow>
      stored (snd (dispatch E onDelta (lit ''meta'', data) s)) = Some t)"
proof (intro conjI impI)
  assume a: "get_prop data (lit ''conversation_id'') = Some c \<and> truthy c"
  show "conversationId (snd (dispatch E onDelta (lit ''done'', data) s)) = c"
    using a by (simp add: dispatch_def Let_def)
  show "stored (snd (dispatch E onDelta (lit ''done'', data) s)) = stored s"
    using a by (simp add: dispatch_def Let_def)
  show "fst (dispatch E onDelta (lit ''done'', data) s) = Return
      \<or> fst (dispatch E onDelta (lit ''done'', data) s) = Throw TypeError"
    by (rule dispatch_done_control)
next
  assume "get_prop data (lit ''conversation_id'') = Some c \<and> truthy c
      \<and> to_String c = Some t \<and> trim t \<noteq> [] \<and> setItem_works E"
  then show "stored (snd (dispatch E onDelta (lit ''meta'', data) s)) = Some t"
    by (simp add: dispatch_def Let_def saveConversationId_def)
qed

text \<open>
  The witness: a stream that starts with \<^verbatim>\<open>done\<close> carrying the id \<^verbatim>\<open>X\<close>, followed by a
  \<^verbatim>\<open>delta\<close> frame, run from the initial state. The call returns normally with the
  identity \<^verbatim>\<open>X\<close>, the later frame is not handled (\<^verbatim>\<open>acc\<close> stays empty), and nothing is
  stored; the same payload in a \<^verbatim>\<open>meta\<close> frame stores \<^verbatim>\<open>X\<close>.
\<close>

theorem done_identity_not_persisted_witness:
  \<open>fst (runAgentStream
      (sample_env (\<lambda>es r. PageNetworkError)
        ([block ''done'' (ascii ''{"conversation_id":"X"}'') @ block ''delta'' (ascii ''{"delta":"Hi"}'')], Closed))
      onDelta_submit (lit ''hi'') init_state) = None
   \<and> conversationId (snd (runAgentStream
      (sample_env (\<lambda>es r. PageNetworkError)
        ([block ''done'' (ascii ''{"conversation_id":"X"}'') @ block ''delta'' (ascii ''{"delta":"Hi"}'')], Closed))
      onDelta_submit (lit ''hi'') init_state)) = JStr (lit ''X'')
   \<and> acc (snd (runAgentStream
      (sample_env (\<lambda>es r. PageNetworkError)
        ([block ''done'' (ascii ''{"conversation_id":"X"}'') @ block ''delta'' (ascii ''{"delta":"Hi"}'')], Closed))
      onDelta_submit (lit ''hi'') init_state)) = []
   \<and> stored (snd (runAgentStream
      (sample_env (\<lambda>es r. PageNetworkError)
        ([block ''done'' (ascii ''{"conversation_id":"X"}'') @ block ''delta'' (ascii ''{"delta":"Hi"}'')], Closed))
      onDelta_submit (lit ''hi'') init_state)) = None
   \<and> stored (snd (dispatch (sample_env (\<lambda>es r. PageNetworkError) ([], Closed)) onDelta_submit
        (lit ''meta'', JObj [(lit ''conversation_id'', JStr (lit ''X''))]) init_state))
       = Some (lit ''X'')\<close>
proof -
  let ?E = \<open>sample_env (\<lambda>es r. PageNetworkError)
        ([block ''done'' (ascii ''{"conversation_id":"X"}'') @ block ''delta'' (ascii ''{"delta":"Hi"}'')], Closed)\<close>
  let ?F = "sample_env (\<lambda>es r. PageNetworkError) ([], Closed)"
  let ?data = "JObj [(lit ''conversation_id'', JStr (lit ''X''))]"
  let ?s1 = "emit (Fetch (StreamReq (payload_of (lit ''hi'') init_state))) init_state"
  have j: "json_parse ?E = sample_parse"
    by (simp add: sample_env_def)
  have h: "get_prop ?data (lit ''conversation_id'') = Some (JStr (lit ''X''))"
    "truthy (JStr (lit ''X''))" "to_String (JStr (lit ''X'')) = Some (lit ''X'')"
    "trim (lit ''X'') \<noteq> []" "setItem_works ?F"
    by (simp_all add: trim_def is_ws_def lit_def sample_env_def)
  have r: "fst (dispatch ?E onDelta_submit (lit ''done'', ?data) ?s1) = Return"
    by (simp add: frame_eval init_state_def lit_def)
  obtain s2 where d: "dispatch ?E onDelta_submit (lit ''done'', ?data) ?s1 = (Return, s2)"
    and c: "conversationId s2 = JStr (lit ''X'')" and st: "stored s2 = stored ?s1"
    using done_identity_not_persisted [where data = ?data and c = "JStr (lit ''X'')" and E = ?E
        and onDelta = onDelta_submit and s = ?s1] h(1,2) r
    by (cases "dispatch ?E onDelta_submit (lit ''done'', ?data) ?s1") auto
  have a: "acc s2 = []"
    using d by (auto simp: frame_eval init_state_def lit_def)
  have run: "runAgentStream ?E onDelta_submit (lit ''hi'') init_state = (None, s2)"
    by (simp only: sample_runAgentStream sample_done_frames [OF j] dispatch_all.simps d
        prod.case control.case finish.simps)
  have m: "stored (snd (dispatch ?F onDelta_submit (lit ''meta'', ?data) init_state))
       = Some (lit ''X'')"
    using done_identity_not_persisted [where data = ?data and c = "JStr (lit ''X'')"
        and t = "lit ''X''" and E = ?F and onDelta = onDelta_submit and s = init_state] h
    by simp
  show ?thesis
    unfolding run using c st a m by (simp add: init_state_def)
qed

text \<open>
  C4. Within one stream the conversation identity never goes back to absent: a frame
  whose payload has no non-empty \<^verbatim>\<open>conversation_id\<close> leaves the identity as it is, a frame
  handled in a state with an identity leaves a state with an identity, and so does the
  whole read loop, from any point of the stream. The callback is assumed not to touch
  the identity, as the one of the submit handler does not.
\<close>

theorem identity_monotonic:
  assumes "\<forall>t s. conversationId (onDelta t s) = conversationId s"
  shows "(\<not> truthy_opt (get_prop data (lit ''conversation_id''))
            \<longrightarrow> conversationId (snd (dispatch E onDelta (n, data) s)) = conversationId s)
    \<and> (truthy (conversationId s)
            \<longrightarrow> truthy (conversationId (snd (dispatch E onDelta (n, data) s))))
    \<and> (truthy (conversationId s)
            \<longrightarrow> truthy (conversationId (snd (read_loop E onDelta chunks fin d buffer s))))"
proof -
  have cb: "conversationId (onDelta t s) = conversationId s" for t s
    using assms by simp
  have one: "conversationId (snd (dispatch E onDelta (n, data) s)) =
     (case get_prop data (lit ''conversation_id'') of
        Some c \<Rightarrow> if (n = lit ''meta'' \<or> n = lit ''done'') \<and> truthy c then c else conversationId s
      | None \<Rightarrow> conversationId s)"
    using cb by (rule dispatch_conversationId)
  have a: "\<not> truthy_opt (get_prop data (lit ''conversation_id''))
      \<longrightarrow> conversationId (snd (dispatch E onDelta (n, data) s)) = conversationId s"
    by (simp add: one split: option.splits)
  have b: "truthy (conversationId s)
      \<longrightarrow> truthy (conversationId (snd (dispatch E onDelta (n, data) s)))"
    by (simp add: one split: option.splits)
  have c: "truthy (conversationId s)
      \<longrightarrow> truthy (conversationId (snd (read_loop E onDelta chunks fin d buffer s)))"
    using dispatch_all_truthy [of onDelta s E, OF cb] by (simp add: read_loop_frames)
  show ?thesis using a b c by blast
qed

text \<open>
  The witness: the loaded state with identity \<^verbatim>\<open>c1\<close>; a \<^verbatim>\<open>done\<close> frame without an id, a
  \<^verbatim>\<open>meta\<close> frame with an empty id, and a stream of a \<^verbatim>\<open>delta\<close> and a \<^verbatim>\<open>done\<close> frame.
\<close>

theorem identity_monotonic_witness:
  \<open>conversationId (snd (dispatch failing_env onDelta_submit (lit ''done'', JObj []) loaded_state))
     = JStr (lit ''c1'')
   \<and> truthy (conversationId (snd (dispatch failing_env onDelta_submit
        (lit ''meta'', JObj [(lit ''conversation_id'', JStr [])]) loaded_state)))
   \<and> truthy (conversationId (snd (read_loop failing_env onDelta_submit
        [block ''delta'' (ascii ''{"delta":"Hi"}''), block ''done'' (ascii ''{}'')]
        Closed utf8_init [] loaded_state)))\<close>
  using identity_monotonic [of onDelta_submit "JObj []" failing_env "lit ''done''" loaded_state
      \<open>[block ''delta'' (ascii ''{"delta":"Hi"}''), block ''done'' (ascii ''{}'')]\<close>
      Closed utf8_init "[]"]
    identity_monotonic [of onDelta_submit "JObj [(lit ''conversation_id'', JStr [])]" failing_env
      "lit ''meta''" loaded_state "[]" Closed utf8_init "[]"]
  by (simp add: onDelta_submit_conversationId loaded_state_def init_state_def lit_def)

text \<open>
  C5. However the bytes of a stream are cut into chunks, the frames decoded are those
  of the same bytes delivered as one chunk, and the read loop ends in the same way in
  the same state. This holds for every byte sequence: the decoder keeps its state from
  one chunk to the next, so a chunk may end inside a multi-byte character.
\<close>

theorem chunking_invariance:
  "decode_frames E utf8_init [] chunks = decode_frames E utf8_init [] [concat chunks]
   \<and> read_loop E onDelta chunks fin utf8_init [] s
       = read_loop E onDelta [concat chunks] fin utf8_init [] s"
proof -
  have e: "indexOf_nn [] = None"
    by simp
  show ?thesis
    using decode_frames_concat [OF e, of E utf8_init chunks]
      read_loop_concat [OF e, of E onDelta chunks fin utf8_init s]
    by (rule conjI)
qed

text \<open>
  The witness: a \<^verbatim>\<open>delta\<close> frame whose text is U+00E9, the two bytes C3 A9 of which
  arrive in different chunks.
\<close>

theorem chunking_invariance_witness:
  \<open>decode_frames failing_env utf8_init []
     [ascii ''event: delta'' @ [10] @ ascii ''data: {"delta":"'' @ [0xC3],
      [0xA9] @ ascii ''"}'' @ [10, 10]]
   = [(lit ''delta'', JObj [(lit ''delta'', JStr [233])])]\<close>
proof -
  let ?E = "failing_env"
  let ?c1 = \<open>ascii ''event: delta'' @ [10] @ ascii ''data: {"delta":"'' @ [0xC3]\<close>
  let ?c2 = \<open>[0xA9] @ ascii ''"}'' @ [10, 10]\<close>
  let ?t = \<open>lit ''event: delta'' @ [10] @ lit ''data: {"delta":"'' @ [233] @ lit ''"}'' @ [10, 10]\<close>
  have c: "concat [?c1, ?c2] = ?c1 @ ?c2"
    by simp
  have i: "indexOf_nn ([] @ ?t) = Some 32"
    by (simp add: lit_def)
  have p: "parse_block ?E (take 32 ([] @ ?t)) = Some (lit ''delta'', JObj [(lit ''delta'', JStr [233])])"
    by (simp add: block_eval failing_env_def sample_env_def)
  have r: "indexOf_nn (drop (32 + 2) ([] @ ?t)) = None"
    by (simp add: lit_def)
  have "decode_frames ?E utf8_init [] [?c1 @ ?c2] = [(lit ''delta'', JObj [(lit ''delta'', JStr [233])])]"
    by (simp only: decode_frames_single sample_accent_text frames_in_eval(3) [OF i p]
        frames_in_eval(1) [OF r] fst_conv)
  then show ?thesis
    using chunking_invariance [of ?E "[?c1, ?c2]"] by (simp only: c)
qed

text \<open>
  C6. A frame-block at the head of the buffer that yields no data text, or whose data
  text \<^verbatim>\<open>JSON.parse\<close> rejects, is skipped: the inner loop goes on with the rest of the
  buffer in the same state, whatever the callback and the environment, and the block
  contributes no frame, so the frames after it are handled as if it had not been there.
  A frame-block none of whose lines starts with \<^verbatim>\<open>event:\<close> has the event name
  \<^verbatim>\<open>message\<close>.
\<close>

theorem malformed_block_skipped:
  "(indexOf_nn buffer = Some i
      \<and> (snd (scan_block (take i buffer)) = []
          \<or> json_parse E (snd (scan_block (take i buffer))) = None)
    \<longrightarrow> drain E onDelta buffer s = drain E onDelta (drop (i + 2) buffer) s
      \<and> frames_in E buffer = frames_in E (drop (i + 2) buffer))
   \<and> ((\<forall>line \<in> set (split_nl chunk). \<not> startsWith line (lit ''event:''))
    \<longrightarrow> fst (scan_block chunk) = lit ''message'')"
proof (intro conjI impI)
  assume a: "indexOf_nn buffer = Some i
      \<and> (snd (scan_block (take i buffer)) = []
          \<or> json_parse E (snd (scan_block (take i buffer))) = None)"
  then have i: "indexOf_nn buffer = Some i" and n: "parse_block E (take i buffer) = None"
    by (simp_all add: parse_block_none)
  show "drain E onDelta buffer s = drain E onDelta (drop (i + 2) buffer) s"
    using i n by (rule drain_skip)
  show "frames_in E buffer = frames_in E (drop (i + 2) buffer)"
    using i n by (rule frames_in_eval(2))
next
  assume "\<forall>line \<in> set (split_nl chunk). \<not> startsWith line (lit ''event:'')"
  then show "fst (scan_block chunk) = lit ''message''"
    unfolding scan_block_def by (rule scan_keeps_name)
qed

text \<open>
  The witness: the block \<^verbatim>\<open>event: delta / data: not-json\<close> followed by a well-formed
  \<^verbatim>\<open>delta\<close> frame, whose text reaches the callback; and the block \<^verbatim>\<open>data: {}\<close>.
\<close>

theorem malformed_block_skipped_witness:
  \<open>drain failing_env onDelta_submit
     (lit ''event: delta'' @ [10] @ lit ''data: not-json'' @ [10, 10]
       @ lit ''event: delta'' @ [10] @ lit ''data: {"delta":"Hi"}'' @ [10, 10]) init_state
   = (Next, [], onDelta_submit (lit ''Hi'') init_state)
   \<and> fst (scan_block (lit ''data: {}'')) = lit ''message''\<close>
proof -
  let ?E = "failing_env"
  let ?b = \<open>lit ''event: delta'' @ [10] @ lit ''data: not-json'' @ [10, 10]
       @ lit ''event: delta'' @ [10] @ lit ''data: {"delta":"Hi"}'' @ [10, 10]\<close>
  have i: "indexOf_nn ?b = Some 27"
    by (simp add: lit_def)
  have p: "json_parse ?E (snd (scan_block (take 27 ?b))) = None"
    by (simp add: block_eval failing_env_def sample_env_def)
  have r: \<open>drop (27 + 2) ?b = lit ''event: delta'' @ [10] @ lit ''data: {"delta":"Hi"}'' @ [10, 10]\<close>
    by (simp add: lit_def)
  have l: "\<forall>line \<in> set (split_nl (lit ''data: {}'')). \<not> startsWith line (lit ''event:'')"
    by (simp add: lit_def)
  have j: "json_parse ?E = sample_parse"
    by (simp add: failing_env_def sample_env_def)
  have skip: "drain ?E onDelta_submit ?b init_state
      = drain ?E onDelta_submit (drop (27 + 2) ?b) init_state"
    using malformed_block_skipped [of ?b 27 ?E onDelta_submit init_state "lit ''data: {}''"] i p
    by blast
  have name: "fst (scan_block (lit ''data: {}'')) = lit ''message''"
    using malformed_block_skipped [of ?b 27 ?E onDelta_submit init_state "lit ''data: {}''"] l
    by blast
  show ?thesis
    using skip name by (simp only: r sample_delta_hi [OF j])
qed

text \<open>
  C7. A page fetch of the usage or history collection that fails, by a network failure,
  a status outside 200--299 or a body that is not JSON, makes the load function throw
  and leaves the state as it was but for the logged request: page, page size, total and
  items of the collection are unchanged. The usage request carries the conversation
  identity as a string.
\<close>

theorem failed_page_fetch_keeps_collection:
  assumes "r = PageNetworkError \<or> (\<exists>st body. r = PageResponse st body \<and> (\<not> ok st \<or> body = None))"
  shows "(truthy (conversationId s) \<and> to_String (conversationId s) = Some c
          \<and> page_fetch E (effects s) (UsageReq c p (usagePageSize s)) = r
        \<longrightarrow> fst (loadUsagePage E p s) \<noteq> None
          \<and> snd (loadUsagePage E p s) = emit (Fetch (UsageReq c p (usagePageSize s))) s
          \<and> usagePage (snd (loadUsagePage E p s)) = usagePage s
          \<and> usagePageSize (snd (loadUsagePage E p s)) = usagePageSize s
          \<and> usageTotal (snd (loadUsagePage E p s)) = usageTotal s
          \<and> usageItems (snd (loadUsagePage E p s)) = usageItems s)
      \<and> (page_fetch E (effects s) (HistoryReq p (historyPageSize s)) = r
        \<longrightarrow> fst (loadHistoryPage E p s) \<noteq> None
          \<and> snd (loadHistoryPage E p s) = emit (Fetch (HistoryReq p (historyPageSize s))) s
          \<and> historyPage (snd (loadHistoryPage E p s)) = historyPage s
          \<and> historyPageSize (snd (loadHistoryPage E p s)) = historyPageSize s
          \<and> historyTotal (snd (loadHistoryPage E p s)) = historyTotal s
          \<and> historyItems (snd (loadHistoryPage E p s)) = historyItems s)"
proof (intro conjI impI)
  assume a: "truthy (conversationId s) \<and> to_String (conversationId s) = Some c
      \<and> page_fetch E (effects s) (UsageReq c p (usagePageSize s)) = r"
  obtain e where u: "loadUsagePage E p s
      = (Some e, emit (Fetch (UsageReq c p (usagePageSize s))) s)"
    using loadUsagePage_failure [of s c E p r] a assms by blast
  show "fst (loadUsagePage E p s) \<noteq> None"
    and "snd (loadUsagePage E p s) = emit (Fetch (UsageReq c p (usagePageSize s))) s"
    and "usagePage (snd (loadUsagePage E p s)) = usagePage s"
    and "usagePageSize (snd (loadUsagePage E p s)) = usagePageSize s"
    and "usageTotal (snd (loadUsagePage E p s)) = usageTotal s"
    and "usageItems (snd (loadUsagePage E p s)) = usageItems s"
    by (simp_all add: u)
next
  assume a: "page_fetch E (effects s) (HistoryReq p (historyPageSize s)) = r"
  obtain e where h: "loadHistoryPage E p s
      = (Some e, emit (Fetch (HistoryReq p (historyPageSize s))) s)"
    using loadHistoryPage_failure [of E s p r] a assms by blast
  show "fst (loadHistoryPage E p s) \<noteq> None"
    and "snd (loadHistoryPage E p s) = emit (Fetch (HistoryReq p (historyPageSize s))) s"
    and "historyPage (snd (loadHistoryPage E p s)) = historyPage s"
    and "historyPageSize (snd (loadHistoryPage E p s)) = historyPageSize s"
    and "historyTotal (snd (loadHistoryPage E p s)) = historyTotal s"
    and "historyItems (snd (loadHistoryPage E p s)) = historyItems s"
    by (simp_all add: h)
qed

text \<open>
  The witness: both collections loaded, every fetch answered with status 500 and no
  JSON body.
\<close>

theorem failed_page_fetch_keeps_collection_witness:
  "usagePage (snd (loadUsagePage failing_env 1 loaded_state)) = 2
   \<and> usageTotal (snd (loadUsagePage failing_env 1 loaded_state)) = 25
   \<and> usageItems (snd (loadUsagePage failing_env 1 loaded_state)) = [JObj []]
   \<and> fst (loadUsagePage failing_env 1 loaded_state) \<noteq> None
   \<and> historyPage (snd (loadHistoryPage failing_env 1 loaded_state)) = 3
   \<and> historyTotal (snd (loadHistoryPage failing_env 1 loaded_state)) = 25
   \<and> historyItems (snd (loadHistoryPage failing_env 1 loaded_state)) = [JObj []]
   \<and> fst (loadHistoryPage failing_env 1 loaded_state) \<noteq> None"
  using failed_page_fetch_keeps_collection [of "PageResponse 500 None" loaded_state "lit ''c1''"
      failing_env 1]
  by (simp add: loaded_state_def failing_env_def sample_env_def init_state_def ok_def lit_def)

text \<open>
  C8. The page count is 1 for a total of zero, and \<open>max 1 \<lceil>total / page_size\<rceil>\<close> for a
  positive total and a page size other than zero that are safe integers (magnitude below
  \<open>2^53\<close>, where the ceiling of the source's double quotient is the exact one). The
  "previous" handlers do nothing (same state, so no request) when the page is at most 1,
  and the "next" handlers do nothing when the page has reached the page count, so
  navigation never asks for page 0 or for the page after the last; the rendered
  \<^verbatim>\<open>disabled\<close> flags say the same.
\<close>

theorem page_count_and_navigation_bounds:
  "(tot = 0 \<longrightarrow> totalPages tot pageSize = Pages 1)
   \<and> (0 < tot \<and> tot < 2 ^ 53 \<and> pageSize \<noteq> 0 \<and> \<bar>pageSize\<bar> < 2 ^ 53 \<longrightarrow>
        totalPages tot pageSize = Pages (max 1 \<lceil>real_of_int tot / real_of_int pageSize\<rceil>))
   \<and> (usagePage s \<le> 1 \<longrightarrow> statsPrev_click E s = s \<and> statsPrev_disabled s)
   \<and> (reaches (usagePage s) (totalPages (usageTotal s) (usagePageSize s)) \<longrightarrow>
        statsNext_click E s = s \<and> statsNext_disabled s)
   \<and> (historyPage s \<le> 1 \<longrightarrow> historyPrev_click E s = s \<and> historyPrev_disabled s)
   \<and> (reaches (historyPage s) (totalPages (historyTotal s) (historyPageSize s)) \<longrightarrow>
        historyNext_click E s = s \<and> historyNext_disabled s)"
proof -
  have next_flag: "reaches (if t \<noteq> 0 then p else 1) (totalPages t z)"
    if "reaches p (totalPages t z)" for p t z :: int
    using that by (cases "t = 0") (simp_all add: totalPages_def)
  show ?thesis
    by (simp add: totalPages_def ceil_div statsPrev_click_def statsNext_click_def
        historyPrev_click_def historyNext_click_def statsPrev_disabled_def
        statsNext_disabled_def historyPrev_disabled_def historyNext_disabled_def next_flag)
qed

text \<open>
  The witness: 25 records in pages of 20 make two pages; on the last page "next" does
  nothing, on the first page "previous" does nothing.
\<close>

theorem page_count_and_navigation_bounds_witness:
  "totalPages 25 20 = Pages 2 \<and> totalPages 0 20 = Pages 1
   \<and> statsNext_click failing_env loaded_state = loaded_state
   \<and> statsPrev_click failing_env (init_state\<lparr>conversationId := JStr (lit ''c1'')\<rparr>)
       = init_state\<lparr>conversationId := JStr (lit ''c1'')\<rparr>
   \<and> historyNext_click failing_env loaded_state = loaded_state
   \<and> historyPrev_click failing_env init_state = init_state"
  using page_count_and_navigation_bounds [of 25 20 "init_state\<lparr>conversationId := JStr (lit ''c1'')\<rparr>" failing_env]
    page_count_and_navigation_bounds [of 0 20 loaded_state failing_env]
    page_count_and_navigation_bounds [of 0 20 init_state failing_env]
  by (simp add: loaded_state_def init_state_def totalPages_def)

text \<open>
  C9, as stated, fails: called with the empty message, \<^verbatim>\<open>runAgentStream\<close> posts the stream
  request with that message, and here returns normally; it rejects nothing.
\<close>

theorem empty_message_opens_stream:
  "effects (snd (runAgentStream (sample_env (\<lambda>es r. PageNetworkError) ([], Closed))
       onDelta_submit [] init_state))
     = [Fetch (StreamReq (JObj [(lit ''message'', JStr [])]))]
   \<and> fst (runAgentStream (sample_env (\<lambda>es r. PageNetworkError) ([], Closed))
       onDelta_submit [] init_state) = None"
  by (simp add: sample_runAgentStream payload_of_def init_state_def)

text \<open>
  C9, amended. \<^verbatim>\<open>runAgentStream\<close> does not look at its message: whatever the message,
  empty or not, the first thing it does is to post the stream request that carries it
  (for a callback that only adds to the log). The submit handler trims the input and
  does nothing at all, so issues no request, when nothing is left.
\<close>

theorem message_not_validated:
  assumes "\<forall>t s. extends s (onDelta t s)"
  shows "take (Suc (length (effects s))) (effects (snd (runAgentStream E onDelta message s)))
           = effects s @ [Fetch (StreamReq (payload_of message s))]
    \<and> (trim val = [] \<longrightarrow> submit E val s = s)"
proof
  have cb: "extends s (onDelta t s)" for t s
    using assms by simp
  show "take (Suc (length (effects s))) (effects (snd (runAgentStream E onDelta message s)))
           = effects s @ [Fetch (StreamReq (payload_of message s))]"
    using cb by (rule runAgentStream_first_effect)
  show "trim val = [] \<longrightarrow> submit E val s = s"
    by (simp add: submit_empty)
qed

text \<open>
  The witness: a message of two spaces.
\<close>

theorem message_not_validated_witness:
  "take 1 (effects (snd (runAgentStream (sample_env (\<lambda>es r. PageNetworkError) ([], Closed))
       onDelta_submit (lit ''  '') init_state)))
     = [Fetch (StreamReq (JObj [(lit ''message'', JStr (lit ''  ''))]))]
   \<and> submit (sample_env (\<lambda>es r. PageNetworkError) ([], Closed)) (lit ''  '') init_state
       = init_state"
proof -
  have h: "\<forall>t s. extends s (onDelta_submit t s)"
    by (simp add: onDelta_submit_extends)
  have t: "trim (lit ''  '') = []"
    by (simp add: trim_def is_ws_def lit_def)
  show ?thesis
    using message_not_validated [OF h, of init_state
        "sample_env (\<lambda>es r. PageNetworkError) ([], Closed)" "lit ''  ''" "lit ''  ''"] t
    by (simp add: payload_of_def init_state_def)
qed

text \<open>
  C10. A \<^verbatim>\<open>delta\<close> frame whose payload has no string under \<^verbatim>\<open>delta\<close> (the field is
  missing, or is not a string) does nothing: the callback is not called, whatever it
  is, and the state, with \<^verbatim>\<open>acc\<close> and the log, is unchanged; the inner loop goes on with
  the rest of the buffer.
\<close>

theorem delta_without_text_ignored:
  assumes "\<forall>t. get_prop data (lit ''delta'') \<noteq> Some (JStr t)"
  shows "dispatch E onDelta (lit ''delta'', data) s = (Next, s)
    \<and> (indexOf_nn buffer = Some i \<and> parse_block E (take i buffer) = Some (lit ''delta'', data)
        \<longrightarrow> drain E onDelta buffer s = drain E onDelta (drop (i + 2) buffer) s)"
proof (intro conjI impI)
  show d: "dispatch E onDelta (lit ''delta'', data) s = (Next, s)"
    using assms by (rule dispatch_delta_other)
  assume a: "indexOf_nn buffer = Some i \<and> parse_block E (take i buffer) = Some (lit ''delta'', data)"
  show "drain E onDelta buffer s = drain E onDelta (drop (i + 2) buffer) s"
    using drain_frame [of buffer i E "(lit ''delta'', data)" onDelta s] a d by simp
qed

text \<open>
  The witness: a \<^verbatim>\<open>delta\<close> frame whose \<^verbatim>\<open>delta\<close> is the number 7, followed by a
  well-formed \<^verbatim>\<open>delta\<close> frame, whose text reaches the callback.
\<close>

theorem delta_without_text_ignored_witness:
  \<open>drain failing_env onDelta_submit
     (lit ''event: delta'' @ [10] @ lit ''data: {"delta":7}'' @ [10, 10]
       @ lit ''event: delta'' @ [10] @ lit ''data: {"delta":"Hi"}'' @ [10, 10]) init_state
   = (Next, [], onDelta_submit (lit ''Hi'') init_state)
   \<and> dispatch failing_env onDelta_submit (lit ''delta'', JObj [(lit ''delta'', JNum 7)]) init_state
       = (Next, init_state)\<close>
proof -
  let ?E = "failing_env"
  let ?b = \<open>lit ''event: delta'' @ [10] @ lit ''data: {"delta":7}'' @ [10, 10]
       @ lit ''event: delta'' @ [10] @ lit ''data: {"delta":"Hi"}'' @ [10, 10]\<close>
  have h: "\<forall>t. get_prop (JObj [(lit ''delta'', JNum 7)]) (lit ''delta'') \<noteq> Some (JStr t)"
    by simp
  have i: "indexOf_nn ?b = Some 30"
    by (simp add: lit_def)
  have p: "parse_block ?E (take 30 ?b) = Some (lit ''delta'', JObj [(lit ''delta'', JNum 7)])"
    by (simp add: block_eval failing_env_def sample_env_def)
  have r: \<open>drop (30 + 2) ?b = lit ''event: delta'' @ [10] @ lit ''data: {"delta":"Hi"}'' @ [10, 10]\<close>
    by (simp add: lit_def)
  have j: "json_parse ?E = sample_parse"
    by (simp add: failing_env_def sample_env_def)
  show ?thesis
    using delta_without_text_ignored [OF h, of ?E onDelta_submit init_state ?b 30] i p
    by (simp only: r sample_delta_hi [OF j])
qed

end
